theory Spec2Isabelle
  imports
    Complex_Main
    "HOL-Library.Char_ord"
    "HOL-Library.List_Lexorder"
    "HOL-Library.Product_Lexorder"
begin

section \<open>Python values used by app.py\<close>

text \<open>
  Strings are byte lists holding UTF-8 text. \<open>str.strip()\<close> and \<open>str.lower()\<close> are modelled
  on ASCII: \<open>is_space\<close> holds the ten ASCII characters Python strips, \<open>lower_char\<close> maps
  \<open>A..Z\<close> to \<open>a..z\<close>; bytes beyond ASCII are left as they are.
\<close>

definition is_space :: "char \<Rightarrow> bool" where
  "is_space c = (c \<in> set [CHR 0x09, CHR 0x0A, CHR 0x0B, CHR 0x0C, CHR 0x0D,
                          CHR 0x1C, CHR 0x1D, CHR 0x1E, CHR 0x1F, CHR 0x20])"

definition strip :: "string \<Rightarrow> string" where
  "strip s = rev (dropWhile is_space (rev (dropWhile is_space s)))"

definition lower_char :: "char \<Rightarrow> char" where
  "lower_char c =
     (if (65::nat) \<le> of_char c \<and> of_char c \<le> (90::nat)
      then char_of (of_char c + (32::nat)) else c)"

definition lower :: "string \<Rightarrow> string" where
  "lower s = map lower_char s"

text \<open>\<open>str(i)\<close> and \<open>f"{i}"\<close> of a Python int: its decimal digits, with a minus sign.\<close>

definition digit_char :: "nat \<Rightarrow> char" where
  "digit_char d = char_of (48 + d)"

fun str_nat :: "nat \<Rightarrow> string" where
  "str_nat n = (if n < 10 then [digit_char n] else str_nat (n div 10) @ [digit_char (n mod 10)])"

declare str_nat.simps [simp del]

definition str_int :: "int \<Rightarrow> string" where
  "str_int i = (if i < 0 then CHR ''-'' # str_nat (nat (- i)) else str_nat (nat i))"

text \<open>
  A cell of a loaded table, as \<open>r[col]\<close> yields it: a string, an integer, or pandas' NaN
  for an empty cell. Cells holding a float with a fractional part are outside the model.
\<close>

datatype cell = CStr string | CInt int | CNaN

fun py_str :: "cell \<Rightarrow> string" where
  "py_str (CStr s) = s"
| "py_str (CInt i) = str_int i"
| "py_str CNaN = ''nan''"

text \<open>
  Python's \<open>int(float(x))\<close> on a string is not code of this repository: it is the
  parameter \<open>pf\<close> of the importers, \<open>None\<close> where it raises (ValueError for text that is
  no number, OverflowError for an infinity). On an integer cell it returns the integer
  (exact below \<open>2^53\<close>); on NaN it raises.
\<close>

type_synonym int_float = "string \<Rightarrow> int option"

fun int_float_cell :: "int_float \<Rightarrow> cell \<Rightarrow> int option" where
  "int_float_cell pf (CStr s) = pf s"
| "int_float_cell pf (CInt i) = Some i"
| "int_float_cell pf CNaN = None"

datatype error =
    ValueError string
  | ConversionError
  | KeyError string
  | IntegrityError
  | OverflowError

definition bind :: "error + 'a \<Rightarrow> ('a \<Rightarrow> error + 'b) \<Rightarrow> error + 'b" where
  "bind m f = (case m of Inl e \<Rightarrow> Inl e | Inr x \<Rightarrow> f x)"

section \<open>Tables and column normalization\<close>

text \<open>
  A DataFrame: its column labels and its rows, each row holding one cell per column.
  \<open>r[col]\<close> raises KeyError where the row has no such label.
\<close>

record dataframe =
  columns :: "string list"
  rows :: "cell list list"

definition getitem :: "string list \<Rightarrow> cell list \<Rightarrow> string \<Rightarrow> error + cell" where
  "getitem cols r c = (case map_of (zip cols r) c of None \<Rightarrow> Inl (KeyError c) | Some x \<Rightarrow> Inr x)"

definition fillna :: "cell \<Rightarrow> dataframe \<Rightarrow> dataframe" where
  "fillna v df = df\<lparr>rows := map (map (\<lambda>x. case x of CNaN \<Rightarrow> v | _ \<Rightarrow> x)) (rows df)\<rparr>"

text \<open>\<open>df[v] = df.pop(k)\<close>: column \<open>k\<close> leaves its place and comes back last, as \<open>v\<close>.\<close>

definition pop_assign :: "string \<Rightarrow> string \<Rightarrow> dataframe \<Rightarrow> dataframe" where
  "pop_assign k v df =
     \<lparr>columns = filter (\<lambda>c. c \<noteq> k) (columns df) @ [v],
      rows = map (\<lambda>r. map snd (filter (\<lambda>p. fst p \<noteq> k) (zip (columns df) r))
                        @ [case map_of (zip (columns df) r) k of None \<Rightarrow> CNaN | Some x \<Rightarrow> x])
                 (rows df)\<rparr>"

definition aliases :: "(string \<times> string) list" where
  "aliases =
    [(''roll'', ''roll_no''), (''roll no'', ''roll_no''), (''rollno'', ''roll_no''),
     (''rollnumber'', ''roll_no''), (''roll_no.'', ''roll_no''),
     (''student name'', ''name''), (''student'', ''name''), (''name of student'', ''name''),
     (''student email'', ''email''), (''mail'', ''email''), (''e-mail'', ''email''),
     (''student phone number'', ''phone''), (''phone number'', ''phone''), (''mobile'', ''phone''),
     (''student phone'', ''phone''), (''contact'', ''phone''),
     (''father name'', ''father_name''), (''father's name'', ''father_name''),
     (''guardian name'', ''father_name''),
     (''father phone number'', ''father_phone''), (''father mobile'', ''father_phone''),
     (''guardian phone'', ''father_phone''),
     (''sem'', ''semester''), (''sub'', ''subject''), (''subject name'', ''subject''),
     (''max'', ''max_marks''), (''maxmarks'', ''max_marks''), (''marks'', ''marks_obtained''),
     (''obtained'', ''marks_obtained'')]"

definition apply_alias :: "string \<times> string \<Rightarrow> dataframe \<Rightarrow> dataframe" where
  "apply_alias kv df =
     (if fst kv \<in> set (columns df) \<and> snd kv \<notin> set (columns df)
      then pop_assign (fst kv) (snd kv) df else df)"

definition normalize_columns :: "dataframe \<Rightarrow> dataframe" where
  "normalize_columns df =
     fold apply_alias aliases (df\<lparr>columns := map (\<lambda>c. lower (strip c)) (columns df)\<rparr>)"

text \<open>The loop \<open>for col in required: if col not in df.columns: raise ValueError(...)\<close>.\<close>

fun missing_column :: "string \<Rightarrow> string list \<Rightarrow> string list \<Rightarrow> error option" where
  "missing_column kind [] cols = None"
| "missing_column kind (c # cs) cols =
     (if c \<notin> set cols then Some (ValueError (kind @ '': missing column '' @ [CHR 0x27] @ c @ [CHR 0x27]))
      else missing_column kind cs cols)"

section \<open>The database\<close>

text \<open>
  One record type per table of \<open>run_schema\<close>, a table being the list of its rows in
  insertion order. The surrogate \<open>id\<close> columns of attendance, marks and remarks are read
  by no statement of app.py and are left out; \<open>uploads_seq\<close> is the AUTOINCREMENT
  counter of \<open>uploads\<close>. \<open>users\<close> is touched by the login route only and is left out.
  Failures of the store itself (lock timeouts, size limits) are not modelled.
\<close>

record upload =
  up_id :: int
  up_filename :: string
  up_upload_type :: string
  up_row_count :: int
  up_created_at :: string
  up_uploader_username :: string

record student =
  st_roll_no :: string
  st_name :: string
  st_email :: "string option"
  st_phone :: "string option"
  st_father_name :: "string option"
  st_father_phone :: "string option"
  st_semester :: "int option"

record upload_student =
  usm_upload_id :: int
  usm_roll_no :: string
  usm_created_new :: int

record attendance_rec =
  att_roll_no :: string
  att_subject :: string
  att_attended :: int
  att_total :: int
  att_semester :: "int option"
  att_source_upload_id :: "int option"

record mark =
  mk_roll_no :: string
  mk_exam :: string
  mk_subject :: string
  mk_max_marks :: int
  mk_marks_obtained :: int
  mk_credits :: "int option"
  mk_semester :: "int option"
  mk_source_upload_id :: "int option"

record remark =
  rm_roll_no :: string
  rm_remark_text :: string
  rm_author_username :: string
  rm_created_at :: string

record db =
  uploads :: "upload list"
  uploads_seq :: int
  students :: "student list"
  upload_students_map :: "upload_student list"
  attendance :: "attendance_rec list"
  marks :: "mark list"
  remarks :: "remark list"

definition empty_db :: db where
  "empty_db = \<lparr>uploads = [], uploads_seq = 0, students = [], upload_students_map = [],
               attendance = [], marks = [], remarks = []\<rparr>"

text \<open>Binding a Python int to an SQLite INTEGER raises OverflowError beyond 64 bits.\<close>

definition fits_int64 :: "int \<Rightarrow> bool" where
  "fits_int64 v = (- (2 ^ 63) \<le> v \<and> v < 2 ^ 63)"

definition fits_opt :: "int option \<Rightarrow> bool" where
  "fits_opt v = (case v of None \<Rightarrow> True | Some i \<Rightarrow> fits_int64 i)"

definition upload_exists :: "int \<Rightarrow> db \<Rightarrow> bool" where
  "upload_exists u s = (u \<in> set (map up_id (uploads s)))"

definition student_exists :: "string \<Rightarrow> db \<Rightarrow> bool" where
  "student_exists roll s = (roll \<in> set (map st_roll_no (students s)))"

subsection \<open>create_upload_record, bump_rowcount\<close>

definition create_upload_record :: "string \<Rightarrow> string \<Rightarrow> string \<Rightarrow> string \<Rightarrow> db \<Rightarrow> int \<times> db" where
  "create_upload_record filename upload_type now username s =
     (let i = fold max (map up_id (uploads s)) (uploads_seq s) + 1
      in (i, s\<lparr>uploads := uploads s @
                  [\<lparr>up_id = i, up_filename = filename, up_upload_type = upload_type,
                    up_row_count = 0, up_created_at = now, up_uploader_username = username\<rparr>],
                uploads_seq := i\<rparr>))"

definition bump_rowcount :: "int \<Rightarrow> int \<Rightarrow> db \<Rightarrow> db" where
  "bump_rowcount upload_id n s =
     s\<lparr>uploads := map (\<lambda>p. if up_id p = upload_id then p\<lparr>up_row_count := up_row_count p + n\<rparr> else p)
                      (uploads s)\<rparr>"

subsection \<open>import_students\<close>

text \<open>Lines 186-199: the locals of one row; \<open>None\<close> is the \<open>continue\<close> of an empty roll.\<close>

definition opt_str :: "cell \<Rightarrow> string option" where
  "opt_str x = (if strip (py_str x) = [] then None else Some (strip (py_str x)))"

definition opt_int :: "int_float \<Rightarrow> cell \<Rightarrow> int option" where
  "opt_int pf x =
     (let sr = strip (py_str x)
      in if sr \<noteq> [] \<and> lower sr \<noteq> ''nan'' then pf sr else None)"

definition student_of_row :: "int_float \<Rightarrow> string list \<Rightarrow> cell list \<Rightarrow> error + student option" where
  "student_of_row pf cols r =
     bind (getitem cols r ''roll_no'') (\<lambda>x_roll.
       if strip (py_str x_roll) = [] then Inr None else
     bind (getitem cols r ''name'') (\<lambda>x_name.
     bind (getitem cols r ''email'') (\<lambda>x_email.
     bind (getitem cols r ''phone'') (\<lambda>x_phone.
     bind (getitem cols r ''father_name'') (\<lambda>x_fname.
     bind (getitem cols r ''father_phone'') (\<lambda>x_fphone.
     bind (getitem cols r ''semester'') (\<lambda>x_sem.
       Inr (Some \<lparr>st_roll_no = strip (py_str x_roll), st_name = strip (py_str x_name),
                  st_email = opt_str x_email, st_phone = opt_str x_phone,
                  st_father_name = opt_str x_fname, st_father_phone = opt_str x_fphone,
                  st_semester = opt_int pf x_sem\<rparr>))))))))"

text \<open>Lines 201-212: the upsert on \<open>students\<close>, keyed by \<open>roll_no\<close>.\<close>

definition upsert_student :: "student \<Rightarrow> db \<Rightarrow> error + db" where
  "upsert_student new s =
     (if \<not> fits_opt (st_semester new) then Inl OverflowError
      else if student_exists (st_roll_no new) s
      then Inr (s\<lparr>students :=
             map (\<lambda>t. if st_roll_no t = st_roll_no new
                       then t\<lparr>st_name := st_name new, st_email := st_email new,
                              st_phone := st_phone new, st_father_name := st_father_name new,
                              st_father_phone := st_father_phone new,
                              st_semester := st_semester new\<rparr>
                       else t) (students s)\<rparr>)
      else Inr (s\<lparr>students := students s @ [new]\<rparr>))"

text \<open>Lines 213-216: the provenance entry; \<open>upload_id\<close> references \<open>uploads(id)\<close>.\<close>

definition insert_upload_student :: "int \<Rightarrow> string \<Rightarrow> int \<Rightarrow> db \<Rightarrow> error + db" where
  "insert_upload_student upload_id roll created_new s =
     (if \<not> fits_int64 upload_id then Inl OverflowError
      else if \<not> upload_exists upload_id s then Inl IntegrityError
      else Inr (s\<lparr>upload_students_map := upload_students_map s @
                  [\<lparr>usm_upload_id = upload_id, usm_roll_no = roll, usm_created_new = created_new\<rparr>]\<rparr>))"

definition students_row :: "int_float \<Rightarrow> string list \<Rightarrow> int \<Rightarrow> cell list \<Rightarrow> db \<Rightarrow> error + db option" where
  "students_row pf cols upload_id r s =
     bind (student_of_row pf cols r) (\<lambda>v.
       case v of None \<Rightarrow> Inr None
       | Some new \<Rightarrow>
           let existed = student_exists (st_roll_no new) s in
           bind (upsert_student new s) (\<lambda>s1.
           bind (insert_upload_student upload_id (st_roll_no new) (if existed then 0 else 1) s1) (\<lambda>s2.
             Inr (Some s2))))"

text \<open>The \<open>for\<close> loop over the rows, with the counter \<open>n\<close>; an exception ends it.\<close>

fun students_rows :: "int_float \<Rightarrow> string list \<Rightarrow> int \<Rightarrow> cell list list \<Rightarrow> db \<Rightarrow> int \<Rightarrow> error + db \<times> int" where
  "students_rows pf cols upload_id [] s n = Inr (s, n)"
| "students_rows pf cols upload_id (r # rs) s n =
     (case students_row pf cols upload_id r s of
        Inl e \<Rightarrow> Inl e
      | Inr None \<Rightarrow> students_rows pf cols upload_id rs s n
      | Inr (Some s') \<Rightarrow> students_rows pf cols upload_id rs s' (n + 1))"

text \<open>
  The result pairs what the call returns or raises with the database after it: an
  exception inside \<open>with get_db() as con\<close> rolls the transaction back.
\<close>

definition students_required :: "string list" where
  "students_required =
     [''roll_no'', ''name'', ''email'', ''phone'', ''father_name'', ''father_phone'', ''semester'']"

definition import_students :: "int_float \<Rightarrow> dataframe \<Rightarrow> int \<Rightarrow> db \<Rightarrow> (error + unit) \<times> db" where
  "import_students pf df0 upload_id s =
     (let df = fillna (CStr []) (normalize_columns df0) in
      case missing_column ''Students'' students_required (columns df) of
        Some e \<Rightarrow> (Inl e, s)
      | None \<Rightarrow>
          (case students_rows pf (columns df) upload_id (rows df) s 0 of
             Inl e \<Rightarrow> (Inl e, s)
           | Inr (s', n) \<Rightarrow> (Inr (), bump_rowcount upload_id n s')))"

text \<open>
  The \<open>try\<close> block of the route \<open>upload_students\<close>, from the saved file on: \<open>name\<close> is
  the stored file name, \<open>df\<close> the table \<open>load_table\<close> returned. The session check and
  \<open>save_upload\<close> come before any statement and write nothing to the database.
\<close>

definition upload_students :: "int_float \<Rightarrow> string \<Rightarrow> dataframe \<Rightarrow> string \<Rightarrow> string \<Rightarrow> db \<Rightarrow> (error + unit) \<times> db" where
  "upload_students pf name df now username s =
     (let (up_id, s1) = create_upload_record name ''Students'' now username s
      in import_students pf df up_id s1)"

subsection \<open>import_attendance\<close>

text \<open>\<open>int(float(x)) if str(x).strip() else 0\<close>: lines 234-235 and 270-271; it may raise.\<close>

definition req_int :: "int_float \<Rightarrow> cell \<Rightarrow> error + int" where
  "req_int pf x =
     (if strip (py_str x) \<noteq> []
      then (case int_float_cell pf x of None \<Rightarrow> Inl ConversionError | Some v \<Rightarrow> Inr v)
      else Inr 0)"

text \<open>\<open>v = None; if col in df.columns: ...\<close>: lines 236-241, 272-283.\<close>

definition opt_column :: "int_float \<Rightarrow> string list \<Rightarrow> cell list \<Rightarrow> string \<Rightarrow> error + int option" where
  "opt_column pf cols r c =
     (if c \<in> set cols then bind (getitem cols r c) (\<lambda>x. Inr (opt_int pf x)) else Inr None)"

definition attendance_of_row :: "int_float \<Rightarrow> string list \<Rightarrow> int \<Rightarrow> cell list \<Rightarrow> error + attendance_rec option" where
  "attendance_of_row pf cols upload_id r =
     bind (getitem cols r ''roll_no'') (\<lambda>x_roll.
     bind (getitem cols r ''subject'') (\<lambda>x_subj.
       if strip (py_str x_roll) = [] \<or> strip (py_str x_subj) = [] then Inr None else
     bind (getitem cols r ''attended'') (\<lambda>x_att.
     bind (req_int pf x_att) (\<lambda>attended.
     bind (getitem cols r ''total'') (\<lambda>x_tot.
     bind (req_int pf x_tot) (\<lambda>total.
     bind (opt_column pf cols r ''semester'') (\<lambda>semester.
       Inr (Some \<lparr>att_roll_no = strip (py_str x_roll), att_subject = strip (py_str x_subj),
                  att_attended = attended, att_total = total, att_semester = semester,
                  att_source_upload_id = Some upload_id\<rparr>))))))))"

definition coalesce :: "'a option \<Rightarrow> 'a option \<Rightarrow> 'a option" where
  "coalesce a b = (case a of None \<Rightarrow> b | Some v \<Rightarrow> Some v)"

definition source_ok :: "int option \<Rightarrow> db \<Rightarrow> bool" where
  "source_ok src s = (case src of None \<Rightarrow> True | Some u \<Rightarrow> upload_exists u s)"

definition att_key :: "attendance_rec \<Rightarrow> string \<times> string" where
  "att_key a = (att_roll_no a, att_subject a)"

text \<open>
  Lines 242-251: the upsert on \<open>attendance\<close>, keyed by \<open>UNIQUE(roll_no, subject)\<close>.
  \<open>roll_no\<close> references \<open>students\<close> and \<open>source_upload_id\<close> references \<open>uploads\<close>
  (\<open>PRAGMA foreign_keys=ON\<close>): a row without its parent raises IntegrityError.
\<close>

definition upsert_attendance :: "attendance_rec \<Rightarrow> db \<Rightarrow> error + db" where
  "upsert_attendance new s =
     (if \<not> (fits_int64 (att_attended new) \<and> fits_int64 (att_total new)
             \<and> fits_opt (att_semester new) \<and> fits_opt (att_source_upload_id new))
      then Inl OverflowError
      else if att_key new \<in> set (map att_key (attendance s))
      then (if \<not> source_ok (att_source_upload_id new) s then Inl IntegrityError
            else Inr (s\<lparr>attendance :=
              map (\<lambda>a. if att_key a = att_key new
                        then a\<lparr>att_attended := att_attended new, att_total := att_total new,
                               att_semester := coalesce (att_semester new) (att_semester a),
                               att_source_upload_id := att_source_upload_id new\<rparr>
                        else a) (attendance s)\<rparr>))
      else (if \<not> student_exists (att_roll_no new) s \<or> \<not> source_ok (att_source_upload_id new) s
            then Inl IntegrityError
            else Inr (s\<lparr>attendance := attendance s @ [new]\<rparr>)))"

definition attendance_row :: "int_float \<Rightarrow> string list \<Rightarrow> int \<Rightarrow> cell list \<Rightarrow> db \<Rightarrow> error + db option" where
  "attendance_row pf cols upload_id r s =
     bind (attendance_of_row pf cols upload_id r) (\<lambda>v.
       case v of None \<Rightarrow> Inr None
       | Some new \<Rightarrow> bind (upsert_attendance new s) (\<lambda>s1. Inr (Some s1)))"

fun attendance_rows :: "int_float \<Rightarrow> string list \<Rightarrow> int \<Rightarrow> cell list list \<Rightarrow> db \<Rightarrow> int \<Rightarrow> error + db \<times> int" where
  "attendance_rows pf cols upload_id [] s n = Inr (s, n)"
| "attendance_rows pf cols upload_id (r # rs) s n =
     (case attendance_row pf cols upload_id r s of
        Inl e \<Rightarrow> Inl e
      | Inr None \<Rightarrow> attendance_rows pf cols upload_id rs s n
      | Inr (Some s') \<Rightarrow> attendance_rows pf cols upload_id rs s' (n + 1))"

definition attendance_required :: "string list" where
  "attendance_required = [''roll_no'', ''subject'', ''attended'', ''total'']"

definition import_attendance :: "int_float \<Rightarrow> dataframe \<Rightarrow> int \<Rightarrow> db \<Rightarrow> (error + unit) \<times> db" where
  "import_attendance pf df0 upload_id s =
     (let df = fillna (CInt 0) (normalize_columns df0) in
      case missing_column ''Attendance'' attendance_required (columns df) of
        Some e \<Rightarrow> (Inl e, s)
      | None \<Rightarrow>
          (case attendance_rows pf (columns df) upload_id (rows df) s 0 of
             Inl e \<Rightarrow> (Inl e, s)
           | Inr (s', n) \<Rightarrow> (Inr (), bump_rowcount upload_id n s')))"

definition upload_attendance :: "int_float \<Rightarrow> string \<Rightarrow> dataframe \<Rightarrow> string \<Rightarrow> string \<Rightarrow> db \<Rightarrow> (error + unit) \<times> db" where
  "upload_attendance pf name df now username s =
     (let (up_id, s1) = create_upload_record name ''Attendance'' now username s
      in import_attendance pf df up_id s1)"

subsection \<open>import_marks\<close>

definition mark_of_row :: "int_float \<Rightarrow> string list \<Rightarrow> int \<Rightarrow> cell list \<Rightarrow> error + mark option" where
  "mark_of_row pf cols upload_id r =
     bind (getitem cols r ''roll_no'') (\<lambda>x_roll.
     bind (getitem cols r ''exam'') (\<lambda>x_exam.
     bind (getitem cols r ''subject'') (\<lambda>x_subj.
       if strip (py_str x_roll) = [] \<or> strip (py_str x_exam) = [] \<or> strip (py_str x_subj) = []
       then Inr None else
     bind (getitem cols r ''max_marks'') (\<lambda>x_max.
     bind (req_int pf x_max) (\<lambda>maxm.
     bind (getitem cols r ''marks_obtained'') (\<lambda>x_got.
     bind (req_int pf x_got) (\<lambda>got.
     bind (opt_column pf cols r ''credits'') (\<lambda>credits.
     bind (opt_column pf cols r ''semester'') (\<lambda>semester.
       Inr (Some \<lparr>mk_roll_no = strip (py_str x_roll), mk_exam = strip (py_str x_exam),
                  mk_subject = strip (py_str x_subj), mk_max_marks = maxm,
                  mk_marks_obtained = got, mk_credits = credits, mk_semester = semester,
                  mk_source_upload_id = Some upload_id\<rparr>))))))))))"

definition mk_key :: "mark \<Rightarrow> string \<times> string \<times> string" where
  "mk_key m = (mk_roll_no m, mk_exam m, mk_subject m)"

text \<open>Lines 284-294: the upsert on \<open>marks\<close>, keyed by \<open>UNIQUE(roll_no, exam, subject)\<close>.\<close>

definition upsert_mark :: "mark \<Rightarrow> db \<Rightarrow> error + db" where
  "upsert_mark new s =
     (if \<not> (fits_int64 (mk_max_marks new) \<and> fits_int64 (mk_marks_obtained new)
             \<and> fits_opt (mk_credits new) \<and> fits_opt (mk_semester new)
             \<and> fits_opt (mk_source_upload_id new))
      then Inl OverflowError
      else if mk_key new \<in> set (map mk_key (marks s))
      then (if \<not> source_ok (mk_source_upload_id new) s then Inl IntegrityError
            else Inr (s\<lparr>marks :=
              map (\<lambda>m. if mk_key m = mk_key new
                        then m\<lparr>mk_max_marks := mk_max_marks new,
                               mk_marks_obtained := mk_marks_obtained new,
                               mk_credits := coalesce (mk_credits new) (mk_credits m),
                               mk_semester := coalesce (mk_semester new) (mk_semester m),
                               mk_source_upload_id := mk_source_upload_id new\<rparr>
                        else m) (marks s)\<rparr>))
      else (if \<not> student_exists (mk_roll_no new) s \<or> \<not> source_ok (mk_source_upload_id new) s
            then Inl IntegrityError
            else Inr (s\<lparr>marks := marks s @ [new]\<rparr>)))"

definition marks_row :: "int_float \<Rightarrow> string list \<Rightarrow> int \<Rightarrow> cell list \<Rightarrow> db \<Rightarrow> error + db option" where
  "marks_row pf cols upload_id r s =
     bind (mark_of_row pf cols upload_id r) (\<lambda>v.
       case v of None \<Rightarrow> Inr None
       | Some new \<Rightarrow> bind (upsert_mark new s) (\<lambda>s1. Inr (Some s1)))"

fun marks_rows :: "int_float \<Rightarrow> string list \<Rightarrow> int \<Rightarrow> cell list list \<Rightarrow> db \<Rightarrow> int \<Rightarrow> error + db \<times> int" where
  "marks_rows pf cols upload_id [] s n = Inr (s, n)"
| "marks_rows pf cols upload_id (r # rs) s n =
     (case marks_row pf cols upload_id r s of
        Inl e \<Rightarrow> Inl e
      | Inr None \<Rightarrow> marks_rows pf cols upload_id rs s n
      | Inr (Some s') \<Rightarrow> marks_rows pf cols upload_id rs s' (n + 1))"

definition marks_required :: "string list" where
  "marks_required = [''roll_no'', ''exam'', ''subject'', ''max_marks'', ''marks_obtained'']"

definition import_marks :: "int_float \<Rightarrow> dataframe \<Rightarrow> int \<Rightarrow> db \<Rightarrow> (error + unit) \<times> db" where
  "import_marks pf df0 upload_id s =
     (let df = fillna (CInt 0) (normalize_columns df0) in
      case missing_column ''Marks'' marks_required (columns df) of
        Some e \<Rightarrow> (Inl e, s)
      | None \<Rightarrow>
          (case marks_rows pf (columns df) upload_id (rows df) s 0 of
             Inl e \<Rightarrow> (Inl e, s)
           | Inr (s', n) \<Rightarrow> (Inr (), bump_rowcount upload_id n s')))"

definition upload_marks :: "int_float \<Rightarrow> string \<Rightarrow> dataframe \<Rightarrow> string \<Rightarrow> string \<Rightarrow> db \<Rightarrow> (error + unit) \<times> db" where
  "upload_marks pf name df now username s =
     (let (up_id, s1) = create_upload_record name ''Marks'' now username s
      in import_marks pf df up_id s1)"

subsection \<open>delete_upload\<close>

text \<open>
  \<open>DELETE FROM students WHERE roll_no IN (...)\<close>: attendance, marks and remarks reference
  \<open>students(roll_no) ON DELETE CASCADE\<close>; \<open>upload_students_map\<close> has no such reference.
\<close>

definition delete_students :: "string list \<Rightarrow> db \<Rightarrow> db" where
  "delete_students rolls s =
     s\<lparr>students := filter (\<lambda>t. st_roll_no t \<notin> set rolls) (students s),
       attendance := filter (\<lambda>a. att_roll_no a \<notin> set rolls) (attendance s),
       marks := filter (\<lambda>m. mk_roll_no m \<notin> set rolls) (marks s),
       remarks := filter (\<lambda>k. rm_roll_no k \<notin> set rolls) (remarks s)\<rparr>"

text \<open>
  \<open>DELETE FROM uploads WHERE id=?\<close>: \<open>upload_students_map.upload_id\<close> cascades, the
  \<open>source_upload_id\<close> of attendance and marks is set to NULL.
\<close>

definition delete_uploads_row :: "int \<Rightarrow> db \<Rightarrow> db" where
  "delete_uploads_row upload_id s =
     s\<lparr>uploads := filter (\<lambda>p. up_id p \<noteq> upload_id) (uploads s),
       upload_students_map := filter (\<lambda>p. usm_upload_id p \<noteq> upload_id) (upload_students_map s),
       attendance := map (\<lambda>a. if att_source_upload_id a = Some upload_id
                               then a\<lparr>att_source_upload_id := None\<rparr> else a) (attendance s),
       marks := map (\<lambda>m. if mk_source_upload_id m = Some upload_id
                          then m\<lparr>mk_source_upload_id := None\<rparr> else m) (marks s)\<rparr>"

definition created_rolls :: "int \<Rightarrow> db \<Rightarrow> string list" where
  "created_rolls upload_id s =
     map usm_roll_no
       (filter (\<lambda>p. usm_upload_id p = upload_id \<and> usm_created_new p = 1) (upload_students_map s))"

definition delete_upload :: "int \<Rightarrow> db \<Rightarrow> bool \<times> db" where
  "delete_upload upload_id s =
     (if \<not> upload_exists upload_id s then (False, s)
      else
        let s1 = s\<lparr>attendance := filter (\<lambda>a. att_source_upload_id a \<noteq> Some upload_id) (attendance s)\<rparr>;
            s2 = s1\<lparr>marks := filter (\<lambda>m. mk_source_upload_id m \<noteq> Some upload_id) (marks s1)\<rparr>;
            created = created_rolls upload_id s2;
            s3 = (if created \<noteq> [] then delete_students created s2 else s2);
            s4 = s3\<lparr>upload_students_map :=
                      filter (\<lambda>p. usm_upload_id p \<noteq> upload_id) (upload_students_map s3)\<rparr>
        in (True, delete_uploads_row upload_id s4))"


subsection \<open>add_remark\<close>

definition add_remark :: "string \<Rightarrow> string \<Rightarrow> string \<Rightarrow> string \<Rightarrow> db \<Rightarrow> (error + unit) \<times> db" where
  "add_remark roll_no remark username now s =
     (if strip remark = [] then (Inr (), s)
      else if \<not> student_exists roll_no s then (Inl IntegrityError, s)
      else (Inr (), s\<lparr>remarks := remarks s @
              [\<lparr>rm_roll_no = roll_no, rm_remark_text = strip remark,
                rm_author_username = username, rm_created_at = now\<rparr>]\<rparr>))"

section \<open>Wide views\<close>

text \<open>
  A percentage is a Python float; it is modelled as a real number, which agrees with
  the float on every comparison below as long as the marks are below \<open>2^46\<close>.
\<close>

definition letter_grade :: "real \<Rightarrow> string" where
  "letter_grade pct =
     (if pct \<ge> 85 then ''A+''
      else if pct \<ge> 75 then ''A''
      else if pct \<ge> 65 then ''B+''
      else if pct \<ge> 55 then ''B''
      else if pct \<ge> 45 then ''C''
      else if pct \<ge> 35 then ''D''
      else ''F'')"

text \<open>Line 348: \<open>(100.0 * marks_obtained / max_marks) if max_marks else 0.0\<close>.\<close>

definition mark_pct :: "int \<Rightarrow> int \<Rightarrow> real" where
  "mark_pct marks_obtained max_marks =
     (if max_marks \<noteq> 0 then 100 * real_of_int marks_obtained / real_of_int max_marks else 0)"

text \<open>
  Line 351: the string literal of a missing cell, as the bytes of the source file. They
  are the UTF-8 of the three characters U+00E2, U+20AC, U+201D.
\<close>

definition missing_cell :: string where
  "missing_cell = [CHR 0xC3, CHR 0xA2, CHR 0xE2, CHR 0x82, CHR 0xAC, CHR 0xE2, CHR 0x80, CHR 0x9D]"

text \<open>The em-dash U+2014 in UTF-8.\<close>

definition em_dash :: string where
  "em_dash = [CHR 0xE2, CHR 0x80, CHR 0x94]"

text \<open>A Python dict keeps insertion order; \<open>d[k] = v\<close> overwrites in place or appends.\<close>

fun setitem :: "'k \<Rightarrow> 'v \<Rightarrow> ('k \<times> 'v) list \<Rightarrow> ('k \<times> 'v) list" where
  "setitem k v [] = [(k, v)]"
| "setitem k v (p # ps) = (if fst p = k then (k, v) # ps else p # setitem k v ps)"

text \<open>\<open>SELECT ... FROM marks WHERE roll_no=? ORDER BY exam, subject\<close>.\<close>

definition select_marks :: "string \<Rightarrow> db \<Rightarrow> mark list" where
  "select_marks roll s =
     sort_key (\<lambda>m. (mk_exam m, mk_subject m)) (filter (\<lambda>m. mk_roll_no m = roll) (marks s))"

definition marks_cell :: "mark list \<Rightarrow> string \<Rightarrow> string \<Rightarrow> string" where
  "marks_cell rs ex sub =
     (case filter (\<lambda>r. mk_exam r = ex \<and> mk_subject r = sub) rs of
        [] \<Rightarrow> missing_cell
      | r # _ \<Rightarrow> letter_grade (mark_pct (mk_marks_obtained r) (mk_max_marks r))
                 @ '' ('' @ str_int (mk_marks_obtained r) @ ''/'' @ str_int (mk_max_marks r) @ '')'')"

definition first_seen :: "'a list \<Rightarrow> 'a list" where
  "first_seen xs = fold (\<lambda>x acc. if x \<notin> set acc then acc @ [x] else acc) xs []"

definition build_marks_grid :: "string \<Rightarrow> db \<Rightarrow> string list \<times> (string \<times> string) list list" where
  "build_marks_grid roll s =
     (let rs = select_marks roll s in
      if rs = [] then ([], [])
      else
        let subjects = sort (remdups (map mk_subject rs));
            exams = first_seen (map mk_exam rs);
            grid_rows = map (\<lambda>ex. fold (\<lambda>sub row. setitem sub (marks_cell rs ex sub) row)
                                       subjects [(''Exam'', ex)]) exams
        in (''Exam'' # subjects, grid_rows))"

section \<open>Reachable states\<close>

text \<open>
  \<open>evolves s t\<close>: the routes of app.py lead from the database \<open>s\<close> to \<open>t\<close>. The
  reachable states are those they lead to from the empty schema.
\<close>

inductive evolves :: "db \<Rightarrow> db \<Rightarrow> bool" where
  e_refl: "evolves s s"
| e_students: "evolves s t \<Longrightarrow> evolves s (snd (upload_students pf name df now username t))"
| e_attendance: "evolves s t \<Longrightarrow> evolves s (snd (upload_attendance pf name df now username t))"
| e_marks: "evolves s t \<Longrightarrow> evolves s (snd (upload_marks pf name df now username t))"
| e_delete: "evolves s t \<Longrightarrow> evolves s (snd (delete_upload upload_id t))"
| e_remark: "evolves s t \<Longrightarrow> evolves s (snd (add_remark roll_no remark username now t))"

definition reachable :: "db \<Rightarrow> bool" where
  "reachable s = evolves empty_db s"

text \<open>
  \<open>SELECT * FROM students WHERE roll_no=?\<close> with \<open>fetchone()\<close>, as \<open>student_view\<close> reads a
  student; the same lookup on the other two tables by their keys.
\<close>

definition find_student :: "string \<Rightarrow> db \<Rightarrow> student option" where
  "find_student roll s = find (\<lambda>t. st_roll_no t = roll) (students s)"



text \<open>
  The student records a Students table supplies, in row order: the rows
  \<open>import_students\<close> does not skip, after \<open>normalize_columns\<close> and \<open>fillna("")\<close>.
\<close>

definition supplied_students :: "int_float \<Rightarrow> dataframe \<Rightarrow> student list" where
  "supplied_students pf df0 =
     (let df = fillna (CStr []) (normalize_columns df0)
      in List.map_filter
           (\<lambda>r. case student_of_row pf (columns df) r of Inr (Some t) \<Rightarrow> Some t | _ \<Rightarrow> None)
           (rows df))"

text \<open>
  An instance of the parameter \<open>pf\<close> for evaluation: it reads an optional minus sign and
  ASCII digits, on which it agrees with \<open>int(float(s))\<close> up to 15 digits.
\<close>

fun nat_of_digits :: "string \<Rightarrow> nat \<Rightarrow> nat option" where
  "nat_of_digits [] acc = Some acc"
| "nat_of_digits (c # cs) acc =
     (if (48::nat) \<le> of_char c \<and> of_char c \<le> (57::nat)
      then nat_of_digits cs (10 * acc + (of_char c - 48)) else None)"

definition decimal_int_float :: int_float where
  "decimal_int_float s =
     (case strip s of
        [] \<Rightarrow> None
      | c # cs \<Rightarrow>
          if c = CHR ''-'' then (if cs = [] then None else map_option (\<lambda>n. - int n) (nat_of_digits cs 0))
          else map_option int (nat_of_digits (c # cs) 0))"

text \<open>The grade bands in ascending order, and the position of a grade among them.\<close>

definition grade_order :: "string list" where
  "grade_order = [''F'', ''D'', ''C'', ''B'', ''B+'', ''A'', ''A+'']"

definition grade_band :: "string \<Rightarrow> nat" where
  "grade_band g = length (takeWhile (\<lambda>x. x \<noteq> g) grade_order)"

section \<open>Example tables and states\<close>

definition t0 :: string where
  "t0 = ''2024-01-01T00:00:00''"

definition alice_table :: dataframe where
  "alice_table =
     \<lparr>columns = [''Roll No'', ''Student Name'', ''email'', ''phone'', ''father_name'', ''father_phone'', ''sem''],
      rows = [[CStr ''R1'', CStr ''Alice'', CStr ''alice@example.org'', CStr ''555'', CStr ''Bob'',
               CStr ''556'', CInt 3]]\<rparr>"

definition alice_blank_table :: dataframe where
  "alice_blank_table =
     \<lparr>columns = [''roll_no'', ''name'', ''email'', ''phone'', ''father_name'', ''father_phone'', ''semester''],
      rows = [[CStr ''R1'', CStr ''Alicia'', CNaN, CStr ''  '', CNaN, CNaN, CNaN]]\<rparr>"


text \<open>An attendance file whose first row has an empty roll number cell.\<close>

definition blank_roll_attendance :: dataframe where
  "blank_roll_attendance =
     \<lparr>columns = [''roll_no'', ''subject'', ''attended'', ''total''],
      rows = [[CNaN, CStr ''Math'', CInt 1, CInt 2], [CStr ''R1'', CStr ''Math'', CInt 3, CInt 4]]\<rparr>"

definition negative_attendance :: dataframe where
  "negative_attendance =
     \<lparr>columns = [''roll_no'', ''subject'', ''attended'', ''total''],
      rows = [[CStr ''R1'', CStr ''Math'', CInt (- 5), CInt 10]]\<rparr>"

definition attendance_with_semester :: dataframe where
  "attendance_with_semester =
     \<lparr>columns = [''roll_no'', ''subject'', ''attended'', ''total'', ''semester''],
      rows = [[CStr ''R1'', CStr ''Math'', CInt 3, CInt 4, CInt 5]]\<rparr>"

definition marks_with_credits :: dataframe where
  "marks_with_credits =
     \<lparr>columns = [''roll_no'', ''exam'', ''subject'', ''max_marks'', ''marks_obtained'', ''credits'', ''semester''],
      rows = [[CStr ''R1'', CStr ''Midterm'', CStr ''Math'', CInt 100, CInt 90, CInt 4, CInt 5]]\<rparr>"

definition two_exams :: dataframe where
  "two_exams =
     \<lparr>columns = [''roll_no'', ''exam'', ''subject'', ''max_marks'', ''marks_obtained''],
      rows = [[CStr ''R1'', CStr ''Midterm'', CStr ''Math'', CInt 100, CInt 90],
              [CStr ''R1'', CStr ''Final'', CStr ''Physics'', CInt 50, CInt 20]]\<rparr>"

text \<open>Upload 1 creates the student R1.\<close>

definition db_alice :: db where
  "db_alice = snd (upload_students decimal_int_float ''students.csv'' alice_table t0 ''admin'' empty_db)"

text \<open>Upload 2 writes two marks of R1.\<close>

definition db_alice_marks :: db where
  "db_alice_marks = snd (upload_marks decimal_int_float ''marks.csv'' two_exams t0 ''admin'' db_alice)"

text \<open>Upload 2 writes an attendance record and a mark of R1, both with a semester.\<close>

definition db_alice_semester :: db where
  "db_alice_semester =
     snd (upload_marks decimal_int_float ''marks.csv'' marks_with_credits t0 ''admin''
       (snd (upload_attendance decimal_int_float ''att.csv'' attendance_with_semester t0 ''admin'' db_alice)))"

section \<open>Lemmas on the statements and loops\<close>


lemma bind_Inl [simp]: "bind (Inl e) f = Inl e"
  by (simp add: bind_def)

lemma bind_Inr [simp]: "bind (Inr x) f = f x"
  by (simp add: bind_def)

lemma bind_eq_Inr: "bind m f = Inr y \<longleftrightarrow> (\<exists>x. m = Inr x \<and> f x = Inr y)"
  by (cases m) simp_all

lemma upsert_student_frame:
  "upsert_student new s = Inr s' \<Longrightarrow>
     uploads s' = uploads s \<and> uploads_seq s' = uploads_seq s \<and> attendance s' = attendance s
     \<and> marks s' = marks s \<and> remarks s' = remarks s \<and> upload_students_map s' = upload_students_map s"
  by (auto simp: upsert_student_def split: if_splits)

lemma insert_upload_student_frame:
  "insert_upload_student u roll c s = Inr s' \<Longrightarrow>
     uploads s' = uploads s \<and> uploads_seq s' = uploads_seq s \<and> attendance s' = attendance s
     \<and> marks s' = marks s \<and> remarks s' = remarks s \<and> students s' = students s"
  by (auto simp: insert_upload_student_def split: if_splits)

lemma students_row_cases:
  assumes "students_row pf cols u r s = Inr (Some s')"
  obtains new s1 where "student_of_row pf cols r = Inr (Some new)"
    and "upsert_student new s = Inr s1"
    and "insert_upload_student u (st_roll_no new) (if student_exists (st_roll_no new) s then 0 else 1) s1 = Inr s'"
  using assms
  by (auto simp: students_row_def Let_def bind_eq_Inr split: option.splits)

lemma students_row_frame:
  assumes "students_row pf cols u r s = Inr (Some s')"
  shows "uploads s' = uploads s \<and> uploads_seq s' = uploads_seq s \<and> attendance s' = attendance s
     \<and> marks s' = marks s \<and> remarks s' = remarks s"
  using assms 
  by (elim students_row_cases) (auto dest!: upsert_student_frame insert_upload_student_frame)


lemma students_rows_Cons:
  assumes "students_rows pf cols u (r # rs) s n = Inr (s', n')"
  obtains (skip) "students_row pf cols u r s = Inr None"
      and "students_rows pf cols u rs s n = Inr (s', n')"
    | (row) s1 where "students_row pf cols u r s = Inr (Some s1)"
      and "students_rows pf cols u rs s1 (n + 1) = Inr (s', n')"
  using assms by (auto split: sum.splits option.splits)

lemma students_rows_frame:
  "students_rows pf cols u rs s n = Inr (s', n') \<Longrightarrow>
     uploads s' = uploads s \<and> uploads_seq s' = uploads_seq s \<and> attendance s' = attendance s
     \<and> marks s' = marks s \<and> remarks s' = remarks s"
proof (induction rs arbitrary: s n)
  case Nil
  then show ?case by simp
next
  case (Cons r rs)
  from Cons.prems show ?case
  proof (cases rule: students_rows_Cons)
    case skip
    then show ?thesis using Cons.IH by blast
  next
    case (row s1)
    from Cons.IH [OF row(2)] students_row_frame [OF row(1)] show ?thesis by simp
  qed
qed

lemma upsert_attendance_frame:
  "upsert_attendance new s = Inr s' \<Longrightarrow>
     uploads s' = uploads s \<and> uploads_seq s' = uploads_seq s \<and> students s' = students s
     \<and> upload_students_map s' = upload_students_map s
     \<and> marks s' = marks s \<and> remarks s' = remarks s"
  by (auto simp: upsert_attendance_def split: if_splits)

lemma attendance_row_cases:
  assumes "attendance_row pf cols u r s = Inr (Some s')"
  obtains new where "attendance_of_row pf cols u r = Inr (Some new)"
    and "upsert_attendance new s = Inr s'"
  using assms
  by (auto simp: attendance_row_def bind_eq_Inr split: option.splits)

lemma attendance_rows_Cons:
  assumes "attendance_rows pf cols u (r # rs) s n = Inr (s', n')"
  obtains (skip) "attendance_row pf cols u r s = Inr None"
      and "attendance_rows pf cols u rs s n = Inr (s', n')"
    | (row) s1 where "attendance_row pf cols u r s = Inr (Some s1)"
      and "attendance_rows pf cols u rs s1 (n + 1) = Inr (s', n')"
  using assms by (auto split: sum.splits option.splits)

lemma attendance_rows_frame:
  "attendance_rows pf cols u rs s n = Inr (s', n') \<Longrightarrow>
     uploads s' = uploads s \<and> uploads_seq s' = uploads_seq s \<and> students s' = students s
     \<and> upload_students_map s' = upload_students_map s
     \<and> marks s' = marks s \<and> remarks s' = remarks s"
proof (induction rs arbitrary: s n)
  case Nil
  then show ?case by simp
next
  case (Cons r rs)
  from Cons.prems show ?case
  proof (cases rule: attendance_rows_Cons)
    case skip
    then show ?thesis using Cons.IH by blast
  next
    case (row s1)
    from row(1) obtain new where "upsert_attendance new s = Inr s1"
      by (rule attendance_row_cases)
    from Cons.IH [OF row(2)] upsert_attendance_frame [OF this] show ?thesis by simp
  qed
qed

lemma upsert_mark_frame:
  "upsert_mark new s = Inr s' \<Longrightarrow>
     uploads s' = uploads s \<and> uploads_seq s' = uploads_seq s \<and> students s' = students s
     \<and> upload_students_map s' = upload_students_map s
     \<and> attendance s' = attendance s \<and> remarks s' = remarks s"
  by (auto simp: upsert_mark_def split: if_splits)

lemma marks_row_cases:
  assumes "marks_row pf cols u r s = Inr (Some s')"
  obtains new where "mark_of_row pf cols u r = Inr (Some new)"
    and "upsert_mark new s = Inr s'"
  using assms
  by (auto simp: marks_row_def bind_eq_Inr split: option.splits)

lemma marks_rows_Cons:
  assumes "marks_rows pf cols u (r # rs) s n = Inr (s', n')"
  obtains (skip) "marks_row pf cols u r s = Inr None"
      and "marks_rows pf cols u rs s n = Inr (s', n')"
    | (row) s1 where "marks_row pf cols u r s = Inr (Some s1)"
      and "marks_rows pf cols u rs s1 (n + 1) = Inr (s', n')"
  using assms by (auto split: sum.splits option.splits)

lemma marks_rows_frame:
  "marks_rows pf cols u rs s n = Inr (s', n') \<Longrightarrow>
     uploads s' = uploads s \<and> uploads_seq s' = uploads_seq s \<and> students s' = students s
     \<and> upload_students_map s' = upload_students_map s
     \<and> attendance s' = attendance s \<and> remarks s' = remarks s"
proof (induction rs arbitrary: s n)
  case Nil
  then show ?case by simp
next
  case (Cons r rs)
  from Cons.prems show ?case
  proof (cases rule: marks_rows_Cons)
    case skip
    then show ?thesis using Cons.IH by blast
  next
    case (row s1)
    from row(1) obtain new where "upsert_mark new s = Inr s1"
      by (rule marks_row_cases)
    from Cons.IH [OF row(2)] upsert_mark_frame [OF this] show ?thesis by simp
  qed
qed



lemma set_null_after_filter:
  "map (\<lambda>a. if Q a then f a else a) (filter (\<lambda>a. \<not> Q a \<and> R a) xs) = filter (\<lambda>a. \<not> Q a \<and> R a) xs"
  by (induction xs) auto

lemma filter_filter_conj: "filter P (filter Q xs) = filter (\<lambda>x. Q x \<and> P x) xs"
  by (induction xs) auto

lemma delete_upload_known:
  assumes "upload_exists u s"
  shows "delete_upload u s =
    (True,
     s\<lparr>uploads := filter (\<lambda>p. up_id p \<noteq> u) (uploads s),
       students := filter (\<lambda>t. st_roll_no t \<notin> set (created_rolls u s)) (students s),
       upload_students_map := filter (\<lambda>p. usm_upload_id p \<noteq> u) (upload_students_map s),
       attendance := filter (\<lambda>a. att_source_upload_id a \<noteq> Some u
                                   \<and> att_roll_no a \<notin> set (created_rolls u s)) (attendance s),
       marks := filter (\<lambda>m. mk_source_upload_id m \<noteq> Some u
                              \<and> mk_roll_no m \<notin> set (created_rolls u s)) (marks s),
       remarks := filter (\<lambda>k. rm_roll_no k \<notin> set (created_rolls u s)) (remarks s)\<rparr>)"
proof (cases "created_rolls u s = []")
  case True
  then show ?thesis
    using assms
    by (simp add: delete_upload_def Let_def created_rolls_def delete_uploads_row_def
        filter_filter_conj set_null_after_filter [where R = "\<lambda>_. True", simplified])
next
  case False
  then show ?thesis
    using assms
    by (simp add: delete_upload_def Let_def created_rolls_def delete_uploads_row_def delete_students_def
        filter_filter_conj set_null_after_filter)
qed




subsection \<open>Fresh upload ids\<close>

lemma fold_max_ge_start: "(x::int) \<le> fold max xs x"
  by (induction xs arbitrary: x) (auto intro: order_trans [OF max.cobounded2])

lemma fold_max_ge_elem: "(y::int) \<in> set xs \<Longrightarrow> y \<le> fold max xs x"
proof (induction xs arbitrary: x)
  case Nil
  then show ?case by simp
next
  case (Cons a xs)
  show ?case
  proof (cases "y = a")
    case True
    have "a \<le> max a x" by simp
    also have "\<dots> \<le> fold max xs (max a x)" by (rule fold_max_ge_start)
    finally show ?thesis using True by simp
  next
    case False
    with Cons show ?thesis by simp
  qed
qed

lemma create_upload_record_fields:
  "uploads (snd (create_upload_record f k now un s)) =
     uploads s @ [\<lparr>up_id = fst (create_upload_record f k now un s), up_filename = f,
                   up_upload_type = k, up_row_count = 0, up_created_at = now,
                   up_uploader_username = un\<rparr>]"
  "uploads_seq (snd (create_upload_record f k now un s)) = fst (create_upload_record f k now un s)"
  "students (snd (create_upload_record f k now un s)) = students s"
  "upload_students_map (snd (create_upload_record f k now un s)) = upload_students_map s"
  "attendance (snd (create_upload_record f k now un s)) = attendance s"
  "marks (snd (create_upload_record f k now un s)) = marks s"
  "remarks (snd (create_upload_record f k now un s)) = remarks s"
  by (simp_all add: create_upload_record_def Let_def)

lemma create_upload_record_fresh:
  "uploads_seq s < fst (create_upload_record f k now un s)"
  "p \<in> set (uploads s) \<Longrightarrow> up_id p < fst (create_upload_record f k now un s)"
proof -
  show "uploads_seq s < fst (create_upload_record f k now un s)"
    using fold_max_ge_start [of "uploads_seq s" "map up_id (uploads s)"]
    by (simp add: create_upload_record_def Let_def)
  assume "p \<in> set (uploads s)"
  then have "up_id p \<in> set (map up_id (uploads s))" by simp
  from fold_max_ge_elem [OF this, of "uploads_seq s"]
  show "up_id p < fst (create_upload_record f k now un s)"
    by (simp add: create_upload_record_def Let_def)
qed

lemma bump_rowcount_fields:
  "map up_id (uploads (bump_rowcount u n s)) = map up_id (uploads s)"
  "uploads_seq (bump_rowcount u n s) = uploads_seq s"
  "students (bump_rowcount u n s) = students s"
  "upload_students_map (bump_rowcount u n s) = upload_students_map s"
  "attendance (bump_rowcount u n s) = attendance s"
  "marks (bump_rowcount u n s) = marks s"
  "remarks (bump_rowcount u n s) = remarks s"
  by (simp_all add: bump_rowcount_def)

subsection \<open>The three importers, case by case\<close>

lemma import_students_cases:
  obtains (fail) e where "import_students pf df u s = (Inl e, s)"
  | (ok) s' n where
      "students_rows pf (columns (fillna (CStr []) (normalize_columns df))) u
         (rows (fillna (CStr []) (normalize_columns df))) s 0 = Inr (s', n)"
      and "import_students pf df u s = (Inr (), bump_rowcount u n s')"
proof (cases "missing_column ''Students'' students_required (columns (fillna (CStr []) (normalize_columns df)))")
  case (Some e)
  then have "import_students pf df u s = (Inl e, s)"
    by (simp add: import_students_def Let_def)
  then show ?thesis by (rule fail)
next
  case None
  show ?thesis
  proof (cases "students_rows pf (columns (fillna (CStr []) (normalize_columns df))) u
         (rows (fillna (CStr []) (normalize_columns df))) s 0")
    case (Inl e)
    with None have "import_students pf df u s = (Inl e, s)"
      by (simp add: import_students_def Let_def)
    then show ?thesis by (rule fail)
  next
    case (Inr p)
    obtain s' n where p: "p = (s', n)" by (cases p)
    with None Inr have "import_students pf df u s = (Inr (), bump_rowcount u n s')"
      by (simp add: import_students_def Let_def)
    with Inr p show ?thesis by (auto intro: ok)
  qed
qed

lemma import_attendance_cases:
  obtains (fail) e where "import_attendance pf df u s = (Inl e, s)"
  | (ok) s' n where
      "attendance_rows pf (columns (fillna (CInt 0) (normalize_columns df))) u
         (rows (fillna (CInt 0) (normalize_columns df))) s 0 = Inr (s', n)"
      and "import_attendance pf df u s = (Inr (), bump_rowcount u n s')"
proof (cases "missing_column ''Attendance'' attendance_required (columns (fillna (CInt 0) (normalize_columns df)))")
  case (Some e)
  then have "import_attendance pf df u s = (Inl e, s)"
    by (simp add: import_attendance_def Let_def)
  then show ?thesis by (rule fail)
next
  case None
  show ?thesis
  proof (cases "attendance_rows pf (columns (fillna (CInt 0) (normalize_columns df))) u
         (rows (fillna (CInt 0) (normalize_columns df))) s 0")
    case (Inl e)
    with None have "import_attendance pf df u s = (Inl e, s)"
      by (simp add: import_attendance_def Let_def)
    then show ?thesis by (rule fail)
  next
    case (Inr p)
    obtain s' n where p: "p = (s', n)" by (cases p)
    with None Inr have "import_attendance pf df u s = (Inr (), bump_rowcount u n s')"
      by (simp add: import_attendance_def Let_def)
    with Inr p show ?thesis by (auto intro: ok)
  qed
qed

lemma import_marks_cases:
  obtains (fail) e where "import_marks pf df u s = (Inl e, s)"
  | (ok) s' n where
      "marks_rows pf (columns (fillna (CInt 0) (normalize_columns df))) u
         (rows (fillna (CInt 0) (normalize_columns df))) s 0 = Inr (s', n)"
      and "import_marks pf df u s = (Inr (), bump_rowcount u n s')"
proof (cases "missing_column ''Marks'' marks_required (columns (fillna (CInt 0) (normalize_columns df)))")
  case (Some e)
  then have "import_marks pf df u s = (Inl e, s)"
    by (simp add: import_marks_def Let_def)
  then show ?thesis by (rule fail)
next
  case None
  show ?thesis
  proof (cases "marks_rows pf (columns (fillna (CInt 0) (normalize_columns df))) u
         (rows (fillna (CInt 0) (normalize_columns df))) s 0")
    case (Inl e)
    with None have "import_marks pf df u s = (Inl e, s)"
      by (simp add: import_marks_def Let_def)
    then show ?thesis by (rule fail)
  next
    case (Inr p)
    obtain s' n where p: "p = (s', n)" by (cases p)
    with None Inr have "import_marks pf df u s = (Inr (), bump_rowcount u n s')"
      by (simp add: import_marks_def Let_def)
    with Inr p show ?thesis by (auto intro: ok)
  qed
qed

lemma upload_students_eq:
  "upload_students pf name df now un s =
     import_students pf df (fst (create_upload_record name ''Students'' now un s))
       (snd (create_upload_record name ''Students'' now un s))"
  by (simp add: upload_students_def split: prod.splits)

lemma upload_attendance_eq:
  "upload_attendance pf name df now un s =
     import_attendance pf df (fst (create_upload_record name ''Attendance'' now un s))
       (snd (create_upload_record name ''Attendance'' now un s))"
  by (simp add: upload_attendance_def split: prod.splits)

lemma upload_marks_eq:
  "upload_marks pf name df now un s =
     import_marks pf df (fst (create_upload_record name ''Marks'' now un s))
       (snd (create_upload_record name ''Marks'' now un s))"
  by (simp add: upload_marks_def split: prod.splits)

subsection \<open>One attendance record per key\<close>

lemma upsert_attendance_distinct:
  assumes a: "upsert_attendance new s = Inr s'" and d: "distinct (map att_key (attendance s))"
  shows "distinct (map att_key (attendance s'))"
proof (cases "att_key new \<in> set (map att_key (attendance s))")
  case True
  with a have "map att_key (attendance s') = map att_key (attendance s)"
    by (auto simp: upsert_attendance_def att_key_def split: if_splits)
  with d show ?thesis by simp
next
  case False
  with a have "attendance s' = attendance s @ [new]"
    by (auto simp: upsert_attendance_def split: if_splits)
  with d False show ?thesis by simp
qed

lemma attendance_rows_distinct:
  "attendance_rows pf cols u rs s n = Inr (s', n') \<Longrightarrow> distinct (map att_key (attendance s)) \<Longrightarrow>
     distinct (map att_key (attendance s'))"
proof (induction rs arbitrary: s n)
  case Nil
  then show ?case by simp
next
  case (Cons r rs)
  from Cons.prems(1) show ?case
  proof (cases rule: attendance_rows_Cons)
    case skip
    then show ?thesis using Cons by blast
  next
    case (row s1)
    from row(1) obtain new where "upsert_attendance new s = Inr s1"
      by (rule attendance_row_cases)
    from upsert_attendance_distinct [OF this Cons.prems(2)] Cons.IH [OF row(2)]
    show ?thesis by simp
  qed
qed

lemma import_attendance_distinct:
  assumes "distinct (map att_key (attendance s))"
  shows "distinct (map att_key (attendance (snd (import_attendance pf df u s))))"
proof (cases rule: import_attendance_cases [of pf df u s])
  case (fail e)
  with assms show ?thesis by simp
next
  case (ok s' n)
  from attendance_rows_distinct [OF ok(1) assms] ok(2) show ?thesis
    by (simp add: bump_rowcount_fields)
qed

lemma import_students_attendance:
  "attendance (snd (import_students pf df u s)) = attendance s"
proof (cases rule: import_students_cases [of pf df u s])
  case (fail e)
  then show ?thesis by simp
next
  case (ok s' n)
  from students_rows_frame [OF ok(1)] ok(2) show ?thesis
    by (simp add: bump_rowcount_fields)
qed

lemma import_marks_attendance:
  "attendance (snd (import_marks pf df u s)) = attendance s"
proof (cases rule: import_marks_cases [of pf df u s])
  case (fail e)
  then show ?thesis by simp
next
  case (ok s' n)
  from marks_rows_frame [OF ok(1)] ok(2) show ?thesis
    by (simp add: bump_rowcount_fields)
qed

lemma delete_upload_distinct:
  assumes "distinct (map att_key (attendance s))"
  shows "distinct (map att_key (attendance (snd (delete_upload u s))))"
proof (cases "upload_exists u s")
  case True
  from assms show ?thesis
    by (simp add: delete_upload_known [OF True] distinct_map_filter)
next
  case False
  with assms show ?thesis by (simp add: delete_upload_def)
qed

lemma add_remark_attendance:
  "attendance (snd (add_remark roll remark un now s)) = attendance s"
  by (simp add: add_remark_def)

lemma evolves_distinct_attendance:
  "evolves s t \<Longrightarrow> distinct (map att_key (attendance s)) \<Longrightarrow> distinct (map att_key (attendance t))"
proof (induction rule: evolves.induct)
  case (e_refl s)
  then show ?case by simp
next
  case (e_students s t pf name df now username)
  then show ?case
    by (simp add: upload_students_eq import_students_attendance create_upload_record_fields)
next
  case (e_attendance s t pf name df now username)
  then show ?case
    by (simp add: upload_attendance_eq import_attendance_distinct create_upload_record_fields)
next
  case (e_marks s t pf name df now username)
  then show ?case
    by (simp add: upload_marks_eq import_marks_attendance create_upload_record_fields)
next
  case (e_delete s t upload_id)
  then show ?case by (simp add: delete_upload_distinct)
next
  case (e_remark s t roll_no remark username now)
  then show ?case by (simp add: add_remark_attendance)
qed

subsection \<open>Provenance entries\<close>

lemma students_row_provenance:
  assumes "students_row pf cols u r s = Inr (Some s1)"
  shows "\<exists>p. upload_students_map s1 = upload_students_map s @ [p] \<and> usm_upload_id p = u
           \<and> upload_exists u s
           \<and> (usm_created_new p = 1 \<longrightarrow> usm_roll_no p \<notin> set (map st_roll_no (students s)))"
    and "set (map st_roll_no (students s)) \<subseteq> set (map st_roll_no (students s1))"
proof -
  from assms obtain new s0 where
    up: "upsert_student new s = Inr s0" and
    ins: "insert_upload_student u (st_roll_no new) (if student_exists (st_roll_no new) s then 0 else 1) s0 = Inr s1"
    by (rule students_row_cases)
  have keep: "\<And>P g xs. (\<And>t. st_roll_no (g t) = st_roll_no t) \<Longrightarrow>
      map st_roll_no (map (\<lambda>t. if P t then g t else t) xs) = map st_roll_no xs"
    by (simp add: if_distrib [of st_roll_no] cong: if_cong)
  have rolls: "set (map st_roll_no (students s)) \<subseteq> set (map st_roll_no (students s0))"
  proof (cases "student_exists (st_roll_no new) s")
    case True
    with up have "map st_roll_no (students s0) = map st_roll_no (students s)"
      by (auto simp: upsert_student_def keep split: if_splits)
    then show ?thesis by simp
  next
    case False
    with up have "students s0 = students s @ [new]"
      by (auto simp: upsert_student_def split: if_splits)
    then show ?thesis by auto
  qed
  from ins have st: "students s1 = students s0"
    by (auto simp: insert_upload_student_def split: if_splits)
  from rolls st show "set (map st_roll_no (students s)) \<subseteq> set (map st_roll_no (students s1))"
    by simp
  from upsert_student_frame [OF up] have same: "uploads s0 = uploads s" "upload_students_map s0 = upload_students_map s"
    by simp_all
  from ins same show "\<exists>p. upload_students_map s1 = upload_students_map s @ [p] \<and> usm_upload_id p = u
           \<and> upload_exists u s
           \<and> (usm_created_new p = 1 \<longrightarrow> usm_roll_no p \<notin> set (map st_roll_no (students s)))"
    by (auto simp: insert_upload_student_def upload_exists_def student_exists_def split: if_splits)
qed

lemma students_rows_provenance:
  "students_rows pf cols u rs s n = Inr (s', n') \<Longrightarrow>
     (\<exists>new. upload_students_map s' = upload_students_map s @ new
        \<and> (\<forall>p\<in>set new. usm_upload_id p = u \<and> upload_exists u s
              \<and> (usm_created_new p = 1 \<longrightarrow> usm_roll_no p \<notin> set (map st_roll_no (students s)))))
     \<and> set (map st_roll_no (students s)) \<subseteq> set (map st_roll_no (students s'))"
proof (induction rs arbitrary: s n)
  case Nil
  then show ?case by simp
next
  case (Cons r rs)
  from Cons.prems show ?case
  proof (cases rule: students_rows_Cons)
    case skip
    then show ?thesis using Cons.IH by blast
  next
    case (row s1)
    from students_row_provenance [OF row(1)] obtain p where
      p: "upload_students_map s1 = upload_students_map s @ [p]" "usm_upload_id p = u"
         "upload_exists u s"
         "usm_created_new p = 1 \<longrightarrow> usm_roll_no p \<notin> set (map st_roll_no (students s))"
      and sub: "set (map st_roll_no (students s)) \<subseteq> set (map st_roll_no (students s1))"
      by blast
    from students_row_frame [OF row(1)] have ex: "upload_exists u s1 = upload_exists u s"
      by (simp add: upload_exists_def)
    from Cons.IH [OF row(2)] obtain new where
      new: "upload_students_map s' = upload_students_map s1 @ new"
        "\<forall>q\<in>set new. usm_upload_id q = u \<and> upload_exists u s1
              \<and> (usm_created_new q = 1 \<longrightarrow> usm_roll_no q \<notin> set (map st_roll_no (students s1)))"
      and sub': "set (map st_roll_no (students s1)) \<subseteq> set (map st_roll_no (students s'))"
      by blast
    have "upload_students_map s' = upload_students_map s @ (p # new)"
      using p(1) new(1) by simp
    moreover have "\<forall>q\<in>set (p # new). usm_upload_id q = u \<and> upload_exists u s
              \<and> (usm_created_new q = 1 \<longrightarrow> usm_roll_no q \<notin> set (map st_roll_no (students s)))"
    proof
      fix q assume "q \<in> set (p # new)"
      then consider "q = p" | "q \<in> set new" by auto
      then show "usm_upload_id q = u \<and> upload_exists u s
              \<and> (usm_created_new q = 1 \<longrightarrow> usm_roll_no q \<notin> set (map st_roll_no (students s)))"
      proof cases
        case 1
        with p(2-4) show ?thesis by simp
      next
        case 2
        with new(2) have "usm_upload_id q = u" "upload_exists u s1"
          "usm_created_new q = 1 \<longrightarrow> usm_roll_no q \<notin> set (map st_roll_no (students s1))"
          by blast+
        with sub ex show ?thesis by blast
      qed
    qed
    moreover have "set (map st_roll_no (students s)) \<subseteq> set (map st_roll_no (students s'))"
      using sub sub' by blast
    ultimately show ?thesis by blast
  qed
qed

lemma import_students_provenance:
  "(\<exists>new. upload_students_map (snd (import_students pf df u s)) = upload_students_map s @ new
        \<and> (\<forall>p\<in>set new. usm_upload_id p = u \<and> upload_exists u s
              \<and> (usm_created_new p = 1 \<longrightarrow> usm_roll_no p \<notin> set (map st_roll_no (students s)))))
   \<and> set (map st_roll_no (students s)) \<subseteq> set (map st_roll_no (students (snd (import_students pf df u s))))"
proof (cases rule: import_students_cases [of pf df u s])
  case (fail e)
  then show ?thesis by simp
next
  case (ok s' n)
  from students_rows_provenance [OF ok(1)] ok(2) show ?thesis
    by (simp add: bump_rowcount_fields)
qed

lemma import_students_fields:
  "map up_id (uploads (snd (import_students pf df u s))) = map up_id (uploads s)"
  "uploads_seq (snd (import_students pf df u s)) = uploads_seq s"
proof -
  show "map up_id (uploads (snd (import_students pf df u s))) = map up_id (uploads s)"
  proof (cases rule: import_students_cases [of pf df u s])
    case (fail e)
    then show ?thesis by simp
  next
    case (ok s' n)
    from students_rows_frame [OF ok(1)] ok(2) show ?thesis by (simp add: bump_rowcount_fields)
  qed
  show "uploads_seq (snd (import_students pf df u s)) = uploads_seq s"
  proof (cases rule: import_students_cases [of pf df u s])
    case (fail e)
    then show ?thesis by simp
  next
    case (ok s' n)
    from students_rows_frame [OF ok(1)] ok(2) show ?thesis by (simp add: bump_rowcount_fields)
  qed
qed

lemma import_attendance_fields:
  "map up_id (uploads (snd (import_attendance pf df u s))) = map up_id (uploads s)"
  "uploads_seq (snd (import_attendance pf df u s)) = uploads_seq s"
  "students (snd (import_attendance pf df u s)) = students s"
  "upload_students_map (snd (import_attendance pf df u s)) = upload_students_map s"
proof -
  have "map up_id (uploads (snd (import_attendance pf df u s))) = map up_id (uploads s)
    \<and> uploads_seq (snd (import_attendance pf df u s)) = uploads_seq s
    \<and> students (snd (import_attendance pf df u s)) = students s
    \<and> upload_students_map (snd (import_attendance pf df u s)) = upload_students_map s"
  proof (cases rule: import_attendance_cases [of pf df u s])
    case (fail e)
    then show ?thesis by simp
  next
    case (ok s' n)
    from attendance_rows_frame [OF ok(1)] ok(2) show ?thesis by (simp add: bump_rowcount_fields)
  qed
  then show "map up_id (uploads (snd (import_attendance pf df u s))) = map up_id (uploads s)"
    "uploads_seq (snd (import_attendance pf df u s)) = uploads_seq s"
    "students (snd (import_attendance pf df u s)) = students s"
    "upload_students_map (snd (import_attendance pf df u s)) = upload_students_map s"
    by simp_all
qed

lemma import_marks_fields:
  "map up_id (uploads (snd (import_marks pf df u s))) = map up_id (uploads s)"
  "uploads_seq (snd (import_marks pf df u s)) = uploads_seq s"
  "students (snd (import_marks pf df u s)) = students s"
  "upload_students_map (snd (import_marks pf df u s)) = upload_students_map s"
proof -
  have "map up_id (uploads (snd (import_marks pf df u s))) = map up_id (uploads s)
    \<and> uploads_seq (snd (import_marks pf df u s)) = uploads_seq s
    \<and> students (snd (import_marks pf df u s)) = students s
    \<and> upload_students_map (snd (import_marks pf df u s)) = upload_students_map s"
  proof (cases rule: import_marks_cases [of pf df u s])
    case (fail e)
    then show ?thesis by simp
  next
    case (ok s' n)
    from marks_rows_frame [OF ok(1)] ok(2) show ?thesis by (simp add: bump_rowcount_fields)
  qed
  then show "map up_id (uploads (snd (import_marks pf df u s))) = map up_id (uploads s)"
    "uploads_seq (snd (import_marks pf df u s)) = uploads_seq s"
    "students (snd (import_marks pf df u s)) = students s"
    "upload_students_map (snd (import_marks pf df u s)) = upload_students_map s"
    by simp_all
qed

lemma delete_upload_fields:
  "uploads_seq (snd (delete_upload u s)) = uploads_seq s"
  "set (uploads (snd (delete_upload u s))) \<subseteq> set (uploads s)"
  "set (upload_students_map (snd (delete_upload u s))) \<subseteq> set (upload_students_map s)"
  "set (students (snd (delete_upload u s))) \<subseteq> set (students s)"
proof -
  have "uploads_seq (snd (delete_upload u s)) = uploads_seq s
    \<and> set (uploads (snd (delete_upload u s))) \<subseteq> set (uploads s)
    \<and> set (upload_students_map (snd (delete_upload u s))) \<subseteq> set (upload_students_map s)
    \<and> set (students (snd (delete_upload u s))) \<subseteq> set (students s)"
  proof (cases "upload_exists u s")
    case True
    show ?thesis by (simp add: delete_upload_known [OF True])
  next
    case False
    then show ?thesis by (simp add: delete_upload_def)
  qed
  then show "uploads_seq (snd (delete_upload u s)) = uploads_seq s"
    "set (uploads (snd (delete_upload u s))) \<subseteq> set (uploads s)"
    "set (upload_students_map (snd (delete_upload u s))) \<subseteq> set (upload_students_map s)"
    "set (students (snd (delete_upload u s))) \<subseteq> set (students s)"
    by simp_all
qed

lemma add_remark_fields:
  "uploads (snd (add_remark roll remark un now s)) = uploads s"
  "uploads_seq (snd (add_remark roll remark un now s)) = uploads_seq s"
  "students (snd (add_remark roll remark un now s)) = students s"
  "upload_students_map (snd (add_remark roll remark un now s)) = upload_students_map s"
  by (simp_all add: add_remark_def)




subsection \<open>Upload ids are never reused\<close>

lemma upload_students_ids:
  assumes I: "\<forall>i\<in>set (map up_id (uploads t)). i \<le> uploads_seq t"
             "\<forall>p\<in>set (upload_students_map t). usm_upload_id p \<le> uploads_seq t"
  shows "(\<forall>i\<in>set (map up_id (uploads (snd (upload_students pf name df now un t)))).
            i \<le> uploads_seq (snd (upload_students pf name df now un t)))
       \<and> (\<forall>p\<in>set (upload_students_map (snd (upload_students pf name df now un t))).
            usm_upload_id p \<le> uploads_seq (snd (upload_students pf name df now un t)))
       \<and> uploads_seq t \<le> uploads_seq (snd (upload_students pf name df now un t))"
proof -
  let ?i = "fst (create_upload_record name ''Students'' now un t)"
  let ?c = "snd (create_upload_record name ''Students'' now un t)"
  have lt: "uploads_seq t < ?i" by (rule create_upload_record_fresh)
  from import_students_provenance [of pf df ?i ?c] obtain new where
    new: "upload_students_map (snd (import_students pf df ?i ?c)) = upload_students_map ?c @ new"
      "\<forall>p\<in>set new. usm_upload_id p = ?i"
    by blast
  have seq: "uploads_seq (snd (import_students pf df ?i ?c)) = ?i"
    by (simp add: import_students_fields create_upload_record_fields)
  have ids: "set (map up_id (uploads (snd (import_students pf df ?i ?c)))) = insert ?i (set (map up_id (uploads t)))"
    by (simp add: import_students_fields create_upload_record_fields)
  have 1: "\<forall>i\<in>set (map up_id (uploads (snd (import_students pf df ?i ?c)))). i \<le> ?i"
    unfolding ids using I(1) lt by auto
  have 2: "\<forall>p\<in>set (upload_students_map (snd (import_students pf df ?i ?c))). usm_upload_id p \<le> ?i"
    unfolding new(1) using new(2) I(2) lt by (auto simp: create_upload_record_fields)
  from 1 2 lt show ?thesis
    unfolding upload_students_eq seq by simp
qed

lemma upload_attendance_ids:
  assumes I: "\<forall>i\<in>set (map up_id (uploads t)). i \<le> uploads_seq t"
             "\<forall>p\<in>set (upload_students_map t). usm_upload_id p \<le> uploads_seq t"
  shows "(\<forall>i\<in>set (map up_id (uploads (snd (upload_attendance pf name df now un t)))).
            i \<le> uploads_seq (snd (upload_attendance pf name df now un t)))
       \<and> (\<forall>p\<in>set (upload_students_map (snd (upload_attendance pf name df now un t))).
            usm_upload_id p \<le> uploads_seq (snd (upload_attendance pf name df now un t)))
       \<and> uploads_seq t \<le> uploads_seq (snd (upload_attendance pf name df now un t))"
proof -
  let ?i = "fst (create_upload_record name ''Attendance'' now un t)"
  have lt: "uploads_seq t < ?i" by (rule create_upload_record_fresh)
  with I show ?thesis
    unfolding upload_attendance_eq
    by (auto simp: import_attendance_fields create_upload_record_fields)
qed

lemma upload_marks_ids:
  assumes I: "\<forall>i\<in>set (map up_id (uploads t)). i \<le> uploads_seq t"
             "\<forall>p\<in>set (upload_students_map t). usm_upload_id p \<le> uploads_seq t"
  shows "(\<forall>i\<in>set (map up_id (uploads (snd (upload_marks pf name df now un t)))).
            i \<le> uploads_seq (snd (upload_marks pf name df now un t)))
       \<and> (\<forall>p\<in>set (upload_students_map (snd (upload_marks pf name df now un t))).
            usm_upload_id p \<le> uploads_seq (snd (upload_marks pf name df now un t)))
       \<and> uploads_seq t \<le> uploads_seq (snd (upload_marks pf name df now un t))"
proof -
  let ?i = "fst (create_upload_record name ''Marks'' now un t)"
  have lt: "uploads_seq t < ?i" by (rule create_upload_record_fresh)
  with I show ?thesis
    unfolding upload_marks_eq
    by (auto simp: import_marks_fields create_upload_record_fields)
qed

lemma evolves_ids:
  "evolves s t \<Longrightarrow>
   (\<forall>i\<in>set (map up_id (uploads s)). i \<le> uploads_seq s) \<Longrightarrow>
   (\<forall>p\<in>set (upload_students_map s). usm_upload_id p \<le> uploads_seq s) \<Longrightarrow>
     (\<forall>i\<in>set (map up_id (uploads t)). i \<le> uploads_seq t)
   \<and> (\<forall>p\<in>set (upload_students_map t). usm_upload_id p \<le> uploads_seq t)
   \<and> uploads_seq s \<le> uploads_seq t"
proof (induction rule: evolves.induct)
  case (e_refl s)
  then show ?case by simp
next
  case (e_students s t pf name df now username)
  from e_students.IH [OF e_students.prems]
  have I: "\<forall>i\<in>set (map up_id (uploads t)). i \<le> uploads_seq t"
    "\<forall>p\<in>set (upload_students_map t). usm_upload_id p \<le> uploads_seq t"
    and le: "uploads_seq s \<le> uploads_seq t" by blast+
  from upload_students_ids [OF I, of pf name df now username] le show ?case
    by (meson order_trans)
next
  case (e_attendance s t pf name df now username)
  from e_attendance.IH [OF e_attendance.prems]
  have I: "\<forall>i\<in>set (map up_id (uploads t)). i \<le> uploads_seq t"
    "\<forall>p\<in>set (upload_students_map t). usm_upload_id p \<le> uploads_seq t"
    and le: "uploads_seq s \<le> uploads_seq t" by blast+
  from upload_attendance_ids [OF I, of pf name df now username] le show ?case
    by (meson order_trans)
next
  case (e_marks s t pf name df now username)
  from e_marks.IH [OF e_marks.prems]
  have I: "\<forall>i\<in>set (map up_id (uploads t)). i \<le> uploads_seq t"
    "\<forall>p\<in>set (upload_students_map t). usm_upload_id p \<le> uploads_seq t"
    and le: "uploads_seq s \<le> uploads_seq t" by blast+
  from upload_marks_ids [OF I, of pf name df now username] le show ?case
    by (meson order_trans)
next
  case (e_delete s t upload_id)
  from e_delete.IH [OF e_delete.prems]
  have I: "\<forall>i\<in>set (map up_id (uploads t)). i \<le> uploads_seq t"
    "\<forall>p\<in>set (upload_students_map t). usm_upload_id p \<le> uploads_seq t"
    and le: "uploads_seq s \<le> uploads_seq t" by blast+
  from I le delete_upload_fields(2,3) [of upload_id t] show ?case
    by (auto simp: delete_upload_fields(1))
next
  case (e_remark s t roll_no remark username now)
  then show ?case by (simp add: add_remark_fields)
qed

lemma reachable_ids:
  assumes "reachable s"
  shows "\<forall>i\<in>set (map up_id (uploads s)). i \<le> uploads_seq s"
    and "\<forall>p\<in>set (upload_students_map s). usm_upload_id p \<le> uploads_seq s"
  using evolves_ids [of empty_db s] assms by (simp_all add: reachable_def empty_db_def)




subsection \<open>Students an upload did not create\<close>

lemma evolves_created:
  assumes "evolves s t"
    and I: "\<forall>i\<in>set (map up_id (uploads s)). i \<le> uploads_seq s"
           "\<forall>p\<in>set (upload_students_map s). usm_upload_id p \<le> uploads_seq s"
    and u: "u \<le> uploads_seq s"
    and Q: "\<forall>p\<in>set (upload_students_map s). usm_upload_id p = u \<and> usm_created_new p = 1
              \<longrightarrow> usm_roll_no p \<notin> R"
  shows "\<forall>p\<in>set (upload_students_map t). usm_upload_id p = u \<and> usm_created_new p = 1
              \<longrightarrow> usm_roll_no p \<notin> R"
  using assms
proof (induction rule: evolves.induct)
  case (e_refl s)
  then show ?case by simp
next
  case (e_students s t pf name df now username)
  let ?i = "fst (create_upload_record name ''Students'' now username t)"
  let ?c = "snd (create_upload_record name ''Students'' now username t)"
  from evolves_ids [OF e_students.hyps e_students.prems(1,2)] e_students.prems(3)
  have "u \<le> uploads_seq t" by simp
  moreover have "uploads_seq t < ?i" by (rule create_upload_record_fresh)
  ultimately have ne: "?i \<noteq> u" by simp
  from import_students_provenance [of pf df ?i ?c] obtain new where
    new: "upload_students_map (snd (import_students pf df ?i ?c)) = upload_students_map ?c @ new"
      "\<forall>p\<in>set new. usm_upload_id p = ?i"
    by blast
  from e_students.IH [OF e_students.prems] new ne show ?case
    unfolding upload_students_eq by (auto simp: create_upload_record_fields)
next
  case (e_attendance s t pf name df now username)
  from e_attendance.IH [OF e_attendance.prems] show ?case
    unfolding upload_attendance_eq by (simp add: import_attendance_fields create_upload_record_fields)
next
  case (e_marks s t pf name df now username)
  from e_marks.IH [OF e_marks.prems] show ?case
    unfolding upload_marks_eq by (simp add: import_marks_fields create_upload_record_fields)
next
  case (e_delete s t upload_id)
  from e_delete.IH [OF e_delete.prems] delete_upload_fields(3) [of upload_id t] show ?case
    by blast
next
  case (e_remark s t roll_no remark username now)
  from e_remark.IH [OF e_remark.prems] show ?case by (simp add: add_remark_fields)
qed

lemma upload_students_created:
  assumes "reachable s0"
  shows "\<forall>p\<in>set (upload_students_map (snd (upload_students pf name df now un s0))).
           usm_upload_id p = fst (create_upload_record name ''Students'' now un s0) \<and> usm_created_new p = 1
             \<longrightarrow> usm_roll_no p \<notin> set (map st_roll_no (students s0))"
proof -
  let ?i = "fst (create_upload_record name ''Students'' now un s0)"
  let ?c = "snd (create_upload_record name ''Students'' now un s0)"
  have lt: "uploads_seq s0 < ?i" by (rule create_upload_record_fresh)
  from import_students_provenance [of pf df ?i ?c] obtain new where
    new: "upload_students_map (snd (import_students pf df ?i ?c)) = upload_students_map ?c @ new"
      "\<forall>p\<in>set new. usm_created_new p = 1 \<longrightarrow> usm_roll_no p \<notin> set (map st_roll_no (students ?c))"
    by blast
  from reachable_ids(2) [OF assms] lt
  have old: "\<forall>p\<in>set (upload_students_map s0). usm_upload_id p \<noteq> ?i" by fastforce
  from new old show ?thesis
    unfolding upload_students_eq by (auto simp: create_upload_record_fields)
qed

lemma rollback_keeps_older_students:
  assumes r: "reachable s0"
    and e: "evolves (snd (upload_students pf name df now un s0)) s"
    and t: "t \<in> set (students s)"
    and old: "st_roll_no t \<in> set (map st_roll_no (students s0))"
  shows "t \<in> set (students (snd (delete_upload (fst (create_upload_record name ''Students'' now un s0)) s)))"
proof -
  let ?u = "fst (create_upload_record name ''Students'' now un s0)"
  let ?s1 = "snd (upload_students pf name df now un s0)"
  have e1: "evolves s0 ?s1" by (intro evolves.intros)
  from evolves_ids [OF e1 reachable_ids [OF r]]
  have I1: "\<forall>i\<in>set (map up_id (uploads ?s1)). i \<le> uploads_seq ?s1"
    "\<forall>p\<in>set (upload_students_map ?s1). usm_upload_id p \<le> uploads_seq ?s1"
    by blast+
  have u1: "?u \<le> uploads_seq ?s1"
    unfolding upload_students_eq by (simp add: import_students_fields create_upload_record_fields)
  from evolves_created [OF e I1 u1 upload_students_created [OF r]]
  have "\<forall>p\<in>set (upload_students_map s). usm_upload_id p = ?u \<and> usm_created_new p = 1
          \<longrightarrow> usm_roll_no p \<notin> set (map st_roll_no (students s0))" .
  with old have "st_roll_no t \<notin> set (created_rolls ?u s)"
    by (auto simp: created_rolls_def)
  with t show ?thesis
    by (cases "upload_exists ?u s") (simp_all add: delete_upload_known, simp add: delete_upload_def)
qed




lemma rollback_of_attendance_keeps_students:
  assumes r: "reachable s0"
    and e: "evolves (snd (upload_attendance pf name df now un s0)) s"
    and t: "t \<in> set (students s)"
  shows "t \<in> set (students (snd (delete_upload (fst (create_upload_record name ''Attendance'' now un s0)) s)))"
proof -
  let ?u = "fst (create_upload_record name ''Attendance'' now un s0)"
  let ?s1 = "snd (upload_attendance pf name df now un s0)"
  have lt: "uploads_seq s0 < ?u" by (rule create_upload_record_fresh)
  have e1: "evolves s0 ?s1" by (intro evolves.intros)
  from evolves_ids [OF e1 reachable_ids [OF r]]
  have I1: "\<forall>i\<in>set (map up_id (uploads ?s1)). i \<le> uploads_seq ?s1"
    "\<forall>p\<in>set (upload_students_map ?s1). usm_upload_id p \<le> uploads_seq ?s1"
    by blast+
  have u1: "?u \<le> uploads_seq ?s1"
    unfolding upload_attendance_eq by (simp add: import_attendance_fields create_upload_record_fields)
  from reachable_ids(2) [OF r] lt
  have Q1: "\<forall>p\<in>set (upload_students_map ?s1). usm_upload_id p = ?u \<and> usm_created_new p = 1
              \<longrightarrow> usm_roll_no p \<notin> (UNIV :: string set)"
    unfolding upload_attendance_eq
    by (fastforce simp: import_attendance_fields create_upload_record_fields)
  from evolves_created [OF e I1 u1 Q1]
  have "created_rolls ?u s = []"
    by (auto simp: created_rolls_def filter_empty_conv)
  with t show ?thesis
    by (cases "upload_exists ?u s") (simp_all add: delete_upload_known, simp add: delete_upload_def)
qed

lemma rollback_of_marks_keeps_students:
  assumes r: "reachable s0"
    and e: "evolves (snd (upload_marks pf name df now un s0)) s"
    and t: "t \<in> set (students s)"
  shows "t \<in> set (students (snd (delete_upload (fst (create_upload_record name ''Marks'' now un s0)) s)))"
proof -
  let ?u = "fst (create_upload_record name ''Marks'' now un s0)"
  let ?s1 = "snd (upload_marks pf name df now un s0)"
  have lt: "uploads_seq s0 < ?u" by (rule create_upload_record_fresh)
  have e1: "evolves s0 ?s1" by (intro evolves.intros)
  from evolves_ids [OF e1 reachable_ids [OF r]]
  have I1: "\<forall>i\<in>set (map up_id (uploads ?s1)). i \<le> uploads_seq ?s1"
    "\<forall>p\<in>set (upload_students_map ?s1). usm_upload_id p \<le> uploads_seq ?s1"
    by blast+
  have u1: "?u \<le> uploads_seq ?s1"
    unfolding upload_marks_eq by (simp add: import_marks_fields create_upload_record_fields)
  from reachable_ids(2) [OF r] lt
  have Q1: "\<forall>p\<in>set (upload_students_map ?s1). usm_upload_id p = ?u \<and> usm_created_new p = 1
              \<longrightarrow> usm_roll_no p \<notin> (UNIV :: string set)"
    unfolding upload_marks_eq
    by (fastforce simp: import_marks_fields create_upload_record_fields)
  from evolves_created [OF e I1 u1 Q1]
  have "created_rolls ?u s = []"
    by (auto simp: created_rolls_def filter_empty_conv)
  with t show ?thesis
    by (cases "upload_exists ?u s") (simp_all add: delete_upload_known, simp add: delete_upload_def)
qed


subsection \<open>Lookups after an upsert\<close>

lemma student_overwritten:
  "st_roll_no t = st_roll_no new \<Longrightarrow>
     t\<lparr>st_name := st_name new, st_email := st_email new, st_phone := st_phone new,
       st_father_name := st_father_name new, st_father_phone := st_father_phone new,
       st_semester := st_semester new\<rparr> = (new :: student)"
  by (cases t, cases new) simp

lemma find_overwrite:
  "find (\<lambda>t. st_roll_no t = roll)
        (map (\<lambda>t. if st_roll_no t = st_roll_no new then new else t) xs) =
     (if st_roll_no new = roll
      then (if st_roll_no new \<in> set (map st_roll_no xs) then Some new else None)
      else find (\<lambda>t. st_roll_no t = roll) xs)"
  by (induction xs) auto

lemma find_append_one:
  "find P (xs @ [x]) = (case find P xs of Some y \<Rightarrow> Some y | None \<Rightarrow> if P x then Some x else None)"
  by (induction xs) auto

lemma upsert_student_find:
  assumes "upsert_student new s = Inr s1"
  shows "find_student roll s1 = (if st_roll_no new = roll then Some new else find_student roll s)"
proof (cases "student_exists (st_roll_no new) s")
  case True
  with assms have "students s1 = map (\<lambda>t. if st_roll_no t = st_roll_no new then new else t) (students s)"
    by (auto simp: upsert_student_def student_overwritten split: if_splits cong: if_cong)
  with True show ?thesis
    by (auto simp: find_student_def find_overwrite student_exists_def)
next
  case False
  with assms have eq: "students s1 = students s @ [new]"
    by (auto simp: upsert_student_def split: if_splits)
  from False have "find (\<lambda>t. st_roll_no t = st_roll_no new) (students s) = None"
    unfolding find_None_iff student_exists_def by (metis image_eqI set_map)
  then show ?thesis
    by (auto simp: find_student_def eq find_append_one split: option.splits)
qed

lemma students_row_find:
  assumes "students_row pf cols u r s = Inr (Some s1)"
  shows "\<exists>new. student_of_row pf cols r = Inr (Some new)
      \<and> find_student roll s1 = (if st_roll_no new = roll then Some new else find_student roll s)"
proof -
  from assms obtain new s0 where
    row: "student_of_row pf cols r = Inr (Some new)" and
    up: "upsert_student new s = Inr s0" and
    ins: "insert_upload_student u (st_roll_no new) (if student_exists (st_roll_no new) s then 0 else 1) s0 = Inr s1"
    by (rule students_row_cases)
  from insert_upload_student_frame [OF ins] have "students s1 = students s0" by simp
  with upsert_student_find [OF up, of roll] row show ?thesis
    by (simp add: find_student_def)
qed

lemma students_row_skip:
  assumes "students_row pf cols u r s = Inr None"
  shows "student_of_row pf cols r = Inr None"
proof (cases "student_of_row pf cols r")
  case (Inl e)
  with assms show ?thesis by (simp add: students_row_def)
next
  case (Inr v)
  show ?thesis
  proof (cases v)
    case None
    with Inr show ?thesis by simp
  next
    case (Some new)
    with Inr assms show ?thesis
      by (auto simp: students_row_def Let_def bind_def split: sum.splits)
  qed
qed

lemma students_rows_find:
  "students_rows pf cols u rs s n = Inr (s', n') \<Longrightarrow>
     find_student roll s' =
       (case find (\<lambda>t. st_roll_no t = roll)
               (rev (List.map_filter
                  (\<lambda>r. case student_of_row pf cols r of Inr (Some t) \<Rightarrow> Some t | _ \<Rightarrow> None) rs)) of
          Some t \<Rightarrow> Some t
        | None \<Rightarrow> find_student roll s)"
proof (induction rs arbitrary: s n)
  case Nil
  then show ?case by (simp add: List.map_filter_simps)
next
  case (Cons r rs)
  from Cons.prems show ?case
  proof (cases rule: students_rows_Cons)
    case skip
    from students_row_skip [OF skip(1)] Cons.IH [OF skip(2)] show ?thesis
      by (simp add: List.map_filter_simps)
  next
    case (row s1)
    from students_row_find [OF row(1), of roll] obtain new where
      new: "student_of_row pf cols r = Inr (Some new)"
        "find_student roll s1 = (if st_roll_no new = roll then Some new else find_student roll s)"
      by blast
    from Cons.IH [OF row(2)] new show ?thesis
      by (simp add: List.map_filter_simps find_append_one split: option.splits)
  qed
qed


subsection \<open>Lookups after a re-import\<close>












subsection \<open>The shape of the marks grid\<close>

lemma sorted_map_fst:
  "sorted (xs :: ('a::linorder \<times> 'b::linorder) list) \<Longrightarrow> sorted (map fst xs)"
  by (induction xs) (auto simp: less_eq_prod_def)

lemma select_marks_sorted: "sorted (map mk_exam (select_marks roll s))"
proof -
  let ?key = "\<lambda>m. (mk_exam m, mk_subject m)"
  let ?xs = "filter (\<lambda>m. mk_roll_no m = roll) (marks s)"
  have "sorted (map ?key (sort_key ?key ?xs))" by (rule sorted_sort_key)
  from sorted_map_fst [OF this] show ?thesis
    by (simp add: select_marks_def comp_def)
qed

lemma select_marks_set:
  "set (select_marks roll s) = {m \<in> set (marks s). mk_roll_no m = roll}"
  by (auto simp: select_marks_def)

lemma first_seen_fold:
  "set (fold (\<lambda>x acc. if x \<notin> set acc then acc @ [x] else acc) xs acc) = set acc \<union> set xs"
  "distinct acc \<Longrightarrow> distinct (fold (\<lambda>x acc. if x \<notin> set acc then acc @ [x] else acc) xs acc)"
  "sorted (acc @ xs) \<Longrightarrow> sorted (fold (\<lambda>x acc. if x \<notin> set acc then acc @ [x] else acc) xs acc)"
proof (induction xs arbitrary: acc)
  case Nil
  { case 1 show ?case by simp }
  { case 2 then show ?case by simp }
  { case 3 then show ?case by simp }
next
  case (Cons x xs)
  { case 1 show ?case by (auto simp: Cons.IH(1)) }
  { case 2 then show ?case by (auto intro: Cons.IH(2)) }
  { case 3
    then have "sorted ((acc @ [x]) @ xs)" "sorted (acc @ xs)"
      by (auto simp: sorted_append)
    then show ?case by (auto intro: Cons.IH(3)) }
qed

lemma first_seen_sorted:
  fixes xs :: "'a::linorder list"
  assumes "sorted xs"
  shows "first_seen xs = sort (remdups xs)"
proof (rule sorted_distinct_set_unique)
  show "sorted (first_seen xs)" using assms by (simp add: first_seen_def first_seen_fold(3))
  show "distinct (first_seen xs)" by (simp add: first_seen_def first_seen_fold(2))
  show "sorted (sort (remdups xs))" by simp
  show "distinct (sort (remdups xs))" by simp
  show "set (first_seen xs) = set (sort (remdups xs))" by (simp add: first_seen_def first_seen_fold(1))
qed

lemma map_of_setitem: "map_of (setitem k v d) = (map_of d)(k \<mapsto> v)"
  by (induction d) (auto simp: fun_eq_iff)

lemma map_of_fold_setitem:
  "map_of (fold (\<lambda>sub row. setitem sub (c sub) row) subs d) k =
     (if k \<in> set subs then Some (c k) else map_of d k)"
  by (induction subs arbitrary: d) (auto simp: map_of_setitem)

lemma marks_cell_eq:
  "marks_cell rs ex sub =
     (case find (\<lambda>r. mk_exam r = ex \<and> mk_subject r = sub) rs of
        None \<Rightarrow> missing_cell
      | Some r \<Rightarrow> letter_grade (mark_pct (mk_marks_obtained r) (mk_max_marks r))
                 @ '' ('' @ str_int (mk_marks_obtained r) @ ''/'' @ str_int (mk_max_marks r) @ '')'')"
  by (induction rs) (auto simp: marks_cell_def)

lemma build_marks_grid_structure:
  fixes roll s
  defines "rs \<equiv> select_marks roll s"
  defines "subjects \<equiv> sort (remdups (map mk_subject rs))"
  defines "exams \<equiv> sort (remdups (map mk_exam rs))"
  shows "rs = [] \<Longrightarrow> build_marks_grid roll s = ([], [])"
    and "rs \<noteq> [] \<Longrightarrow> fst (build_marks_grid roll s) = ''Exam'' # subjects"
    and "rs \<noteq> [] \<Longrightarrow> length (snd (build_marks_grid roll s)) = length exams"
    and "rs \<noteq> [] \<Longrightarrow> i < length exams \<Longrightarrow> sub \<in> set subjects \<Longrightarrow>
           map_of (snd (build_marks_grid roll s) ! i) sub = Some (marks_cell rs (exams ! i) sub)"
    and "rs \<noteq> [] \<Longrightarrow> i < length exams \<Longrightarrow> ''Exam'' \<notin> set subjects \<Longrightarrow>
           map_of (snd (build_marks_grid roll s) ! i) ''Exam'' = Some (exams ! i)"
proof -
  have ex: "first_seen (map mk_exam rs) = exams"
    unfolding exams_def rs_def by (rule first_seen_sorted [OF select_marks_sorted])
  show "rs = [] \<Longrightarrow> build_marks_grid roll s = ([], [])"
    by (simp add: build_marks_grid_def rs_def Let_def)
  assume ne: "rs \<noteq> []"
  then have g: "build_marks_grid roll s =
      (''Exam'' # subjects,
       map (\<lambda>ex. fold (\<lambda>sub row. setitem sub (marks_cell rs ex sub) row) subjects [(''Exam'', ex)]) exams)"
    unfolding ex [symmetric] by (simp add: build_marks_grid_def rs_def subjects_def Let_def)
  show "fst (build_marks_grid roll s) = ''Exam'' # subjects" by (simp add: g)
  show "length (snd (build_marks_grid roll s)) = length exams" by (simp add: g)
  { assume "i < length exams" "sub \<in> set subjects"
    then show "map_of (snd (build_marks_grid roll s) ! i) sub = Some (marks_cell rs (exams ! i) sub)"
      by (simp add: g map_of_fold_setitem) }
  { assume "i < length exams" "''Exam'' \<notin> set subjects"
    then show "map_of (snd (build_marks_grid roll s) ! i) ''Exam'' = Some (exams ! i)"
      by (simp add: g map_of_fold_setitem) }
qed

subsection \<open>Rows the importers skip\<close>

lemma blank_roll_students_row:
  "getitem cols r ''roll_no'' = Inr x \<Longrightarrow> strip (py_str x) = [] \<Longrightarrow>
     students_row pf cols u r s = Inr None"
  by (simp add: students_row_def student_of_row_def)

lemma blank_key_attendance_row:
  "getitem cols r ''roll_no'' = Inr x \<Longrightarrow> getitem cols r ''subject'' = Inr y \<Longrightarrow>
   strip (py_str x) = [] \<or> strip (py_str y) = [] \<Longrightarrow>
     attendance_row pf cols u r s = Inr None"
  by (auto simp: attendance_row_def attendance_of_row_def)

lemma blank_key_marks_row:
  "getitem cols r ''roll_no'' = Inr x \<Longrightarrow> getitem cols r ''exam'' = Inr y \<Longrightarrow>
   getitem cols r ''subject'' = Inr z \<Longrightarrow>
   strip (py_str x) = [] \<or> strip (py_str y) = [] \<or> strip (py_str z) = [] \<Longrightarrow>
     marks_row pf cols u r s = Inr None"
  by (auto simp: marks_row_def mark_of_row_def)

lemma fillna_empty_cell:
  "strip (py_str (case CNaN of CNaN \<Rightarrow> CStr [] | x \<Rightarrow> x)) = []"
  "strip (py_str (case CNaN of CNaN \<Rightarrow> CInt 0 | x \<Rightarrow> x)) = ''0''"
  by code_simp+


lemma columns_fillna [simp]: "columns (fillna v df) = columns df"
  by (simp add: fillna_def)


section \<open>A required column is missing\<close>




section \<open>Letter grades\<close>

text \<open>
  Claim C4: \<open>letter_grade\<close> returns A+ from 85, A on [75, 85), B+ on [65, 75), B on
  [55, 65), C on [45, 55), D on [35, 45) and F below 35; so 100 and 85 give A+, 84.9 gives
  A and 0 gives F. The percentage of a marks cell is \<open>100 * marks_obtained / max_marks\<close>,
  and 0 when \<open>max_marks\<close> is 0; the cell of a record is rendered from that percentage.
\<close>

theorem letter_grade_bands:
  "(85 \<le> pct \<longrightarrow> letter_grade pct = ''A+'')
   \<and> (75 \<le> pct \<and> pct < 85 \<longrightarrow> letter_grade pct = ''A'')
   \<and> (65 \<le> pct \<and> pct < 75 \<longrightarrow> letter_grade pct = ''B+'')
   \<and> (55 \<le> pct \<and> pct < 65 \<longrightarrow> letter_grade pct = ''B'')
   \<and> (45 \<le> pct \<and> pct < 55 \<longrightarrow> letter_grade pct = ''C'')
   \<and> (35 \<le> pct \<and> pct < 45 \<longrightarrow> letter_grade pct = ''D'')
   \<and> (pct < 35 \<longrightarrow> letter_grade pct = ''F'')
   \<and> letter_grade 100 = ''A+'' \<and> letter_grade 85 = ''A+''
   \<and> letter_grade (849 / 10) = ''A'' \<and> letter_grade 0 = ''F''
   \<and> (max_marks \<noteq> 0 \<longrightarrow> mark_pct got max_marks = 100 * real_of_int got / real_of_int max_marks)
   \<and> mark_pct got 0 = 0
   \<and> (mk_exam r = ex \<and> mk_subject r = sub \<longrightarrow>
        marks_cell (r # rs) ex sub =
          letter_grade (mark_pct (mk_marks_obtained r) (mk_max_marks r))
            @ '' ('' @ str_int (mk_marks_obtained r) @ ''/'' @ str_int (mk_max_marks r) @ '')'')"
  by (simp add: letter_grade_def mark_pct_def marks_cell_def)

theorem letter_grade_bands_witness:
  "(85::real) \<le> 90 \<and> letter_grade 90 = ''A+''
   \<and> (75::real) \<le> 849 / 10 \<and> (849 / 10 :: real) < 85 \<and> letter_grade (849 / 10) = ''A''
   \<and> (65::real) \<le> 70 \<and> (70::real) < 75 \<and> letter_grade 70 = ''B+''
   \<and> (55::real) \<le> 60 \<and> (60::real) < 65 \<and> letter_grade 60 = ''B''
   \<and> (45::real) \<le> 50 \<and> (50::real) < 55 \<and> letter_grade 50 = ''C''
   \<and> (35::real) \<le> 40 \<and> (40::real) < 45 \<and> letter_grade 40 = ''D''
   \<and> (10::real) < 35 \<and> letter_grade 10 = ''F''
   \<and> (100::int) \<noteq> 0 \<and> mark_pct 90 100 = 90
   \<and> mk_exam (hd (marks db_alice_marks)) = ''Midterm''
   \<and> mk_subject (hd (marks db_alice_marks)) = ''Math''
   \<and> marks_cell (hd (marks db_alice_marks) # tl (marks db_alice_marks)) ''Midterm'' ''Math''
       = ''A+ (90/100)''"
proof -
  have m: "mk_exam (hd (marks db_alice_marks)) = ''Midterm''"
    "mk_subject (hd (marks db_alice_marks)) = ''Math''"
    "letter_grade (mark_pct (mk_marks_obtained (hd (marks db_alice_marks)))
        (mk_max_marks (hd (marks db_alice_marks))))
       @ '' ('' @ str_int (mk_marks_obtained (hd (marks db_alice_marks))) @ ''/''
       @ str_int (mk_max_marks (hd (marks db_alice_marks))) @ '')'' = ''A+ (90/100)''"
    by code_simp+
  from letter_grade_bands [of 90 100 90 "hd (marks db_alice_marks)" "''Midterm''" "''Math''"
      "tl (marks db_alice_marks)"]
    letter_grade_bands [of "849 / 10"] letter_grade_bands [of 70] letter_grade_bands [of 60]
    letter_grade_bands [of 50] letter_grade_bands [of 40] letter_grade_bands [of 10] m
  show ?thesis by simp
qed

lemma grade_band_letter_grade:
  "grade_band (letter_grade p) =
     (if p \<ge> 85 then 6 else if p \<ge> 75 then 5 else if p \<ge> 65 then 4 else if p \<ge> 55 then 3
      else if p \<ge> 45 then 2 else if p \<ge> 35 then 1 else 0)"
  by (simp add: letter_grade_def grade_band_def grade_order_def)

text \<open>
  Claim C10: \<open>letter_grade\<close> is total, its result is one of the seven grades, and it is
  monotone: a higher percentage never falls into a lower band of
  F, D, C, B, B+, A, A+.
\<close>

theorem letter_grade_monotone:
  "letter_grade p \<in> set [''A+'', ''A'', ''B+'', ''B'', ''C'', ''D'', ''F'']
   \<and> (p \<le> q \<longrightarrow> grade_band (letter_grade p) \<le> grade_band (letter_grade q))"
  by (simp add: grade_band_letter_grade) (simp add: letter_grade_def)

theorem letter_grade_monotone_witness:
  "(40::real) \<le> 70 \<and> grade_band (letter_grade 40) \<le> grade_band (letter_grade 70)
   \<and> grade_band (letter_grade 40) = 1 \<and> grade_band (letter_grade 70) = 4"
  using letter_grade_monotone [of 40 70] by (simp add: grade_band_letter_grade)

section \<open>Rollback\<close>



text \<open>
  Claim C5, as amended: for an upload id that names a row of \<open>uploads\<close>, \<open>delete_upload\<close>
  returns True and removes the attendance and marks rows whose \<open>source_upload_id\<close> is that
  id, the students named by a provenance entry of the upload with \<open>created_new = 1\<close> and,
  by \<open>ON DELETE CASCADE\<close>, every attendance row, mark and remark of those students
  whichever upload wrote them, the provenance entries of the upload and its row of
  \<open>uploads\<close>; nothing else changes. A student row whose roll number was in \<open>students\<close>
  before a Students upload is never removed by the rollback of that upload, whatever
  the routes did in between, and keeps the field values it has by then; the rollback of
  an Attendance or Marks upload removes no student row at all.
\<close>

theorem rollback_effect:
  "(upload_exists u s \<longrightarrow>
      delete_upload u s =
        (True,
         s\<lparr>uploads := filter (\<lambda>p. up_id p \<noteq> u) (uploads s),
           students := filter (\<lambda>t. st_roll_no t \<notin> set (created_rolls u s)) (students s),
           upload_students_map := filter (\<lambda>p. usm_upload_id p \<noteq> u) (upload_students_map s),
           attendance := filter (\<lambda>a. att_source_upload_id a \<noteq> Some u
                                       \<and> att_roll_no a \<notin> set (created_rolls u s)) (attendance s),
           marks := filter (\<lambda>m. mk_source_upload_id m \<noteq> Some u
                                  \<and> mk_roll_no m \<notin> set (created_rolls u s)) (marks s),
           remarks := filter (\<lambda>k. rm_roll_no k \<notin> set (created_rolls u s)) (remarks s)\<rparr>))
   \<and> (reachable s0 \<and> evolves (snd (upload_students pf name df now un s0)) s'
        \<and> t \<in> set (students s') \<and> st_roll_no t \<in> set (map st_roll_no (students s0)) \<longrightarrow>
        t \<in> set (students (snd (delete_upload (fst (create_upload_record name ''Students'' now un s0)) s'))))
   \<and> (reachable a0 \<and> evolves (snd (upload_attendance pf aname adf anow aun a0)) a'
        \<and> ta \<in> set (students a') \<longrightarrow>
        ta \<in> set (students (snd (delete_upload (fst (create_upload_record aname ''Attendance'' anow aun a0)) a'))))
   \<and> (reachable m0 \<and> evolves (snd (upload_marks pf mname mdf mnow mun m0)) m'
        \<and> tm \<in> set (students m') \<longrightarrow>
        tm \<in> set (students (snd (delete_upload (fst (create_upload_record mname ''Marks'' mnow mun m0)) m'))))"
  using delete_upload_known [of u s] rollback_keeps_older_students [of s0 pf name df now un s' t]
    rollback_of_attendance_keeps_students [of a0 pf aname adf anow aun a' ta]
    rollback_of_marks_keeps_students [of m0 pf mname mdf mnow mun m' tm]
  by blast

theorem rollback_effect_witness:
  "upload_exists 2 db_alice_marks
   \<and> delete_upload 2 db_alice_marks = (True, db_alice\<lparr>uploads_seq := 2\<rparr>)
   \<and> reachable db_alice
   \<and> evolves (snd (upload_students decimal_int_float ''s2.csv'' alice_blank_table t0 ''admin'' db_alice))
        (snd (upload_students decimal_int_float ''s2.csv'' alice_blank_table t0 ''admin'' db_alice))
   \<and> st_roll_no \<lparr>st_roll_no = ''R1'', st_name = ''Alicia'', st_email = None,
           st_phone = None, st_father_name = None, st_father_phone = None,
           st_semester = None\<rparr> \<in> set (map st_roll_no (students db_alice))
   \<and> \<lparr>st_roll_no = ''R1'', st_name = ''Alicia'', st_email = None,
           st_phone = None, st_father_name = None, st_father_phone = None,
           st_semester = None\<rparr>
       \<in> set (students (snd (upload_students decimal_int_float ''s2.csv'' alice_blank_table t0 ''admin'' db_alice)))
   \<and> \<lparr>st_roll_no = ''R1'', st_name = ''Alicia'', st_email = None,
           st_phone = None, st_father_name = None, st_father_phone = None,
           st_semester = None\<rparr>
       \<in> set (students (snd (delete_upload (fst (create_upload_record ''s2.csv'' ''Students'' t0 ''admin'' db_alice))
            (snd (upload_students decimal_int_float ''s2.csv'' alice_blank_table t0 ''admin'' db_alice)))))
   \<and> evolves (snd (upload_attendance decimal_int_float ''att.csv'' attendance_with_semester t0 ''admin'' db_alice))
        db_alice_semester
   \<and> \<lparr>st_roll_no = ''R1'', st_name = ''Alice'', st_email = Some ''alice@example.org'',
         st_phone = Some ''555'', st_father_name = Some ''Bob'', st_father_phone = Some ''556'',
         st_semester = Some 3\<rparr> \<in> set (students db_alice_semester)
   \<and> \<lparr>st_roll_no = ''R1'', st_name = ''Alice'', st_email = Some ''alice@example.org'',
         st_phone = Some ''555'', st_father_name = Some ''Bob'', st_father_phone = Some ''556'',
         st_semester = Some 3\<rparr>
       \<in> set (students (snd (delete_upload
            (fst (create_upload_record ''att.csv'' ''Attendance'' t0 ''admin'' db_alice)) db_alice_semester)))
   \<and> evolves (snd (upload_marks decimal_int_float ''marks.csv'' two_exams t0 ''admin'' db_alice))
        db_alice_marks
   \<and> \<lparr>st_roll_no = ''R1'', st_name = ''Alice'', st_email = Some ''alice@example.org'',
         st_phone = Some ''555'', st_father_name = Some ''Bob'', st_father_phone = Some ''556'',
         st_semester = Some 3\<rparr> \<in> set (students db_alice_marks)
   \<and> \<lparr>st_roll_no = ''R1'', st_name = ''Alice'', st_email = Some ''alice@example.org'',
         st_phone = Some ''555'', st_father_name = Some ''Bob'', st_father_phone = Some ''556'',
         st_semester = Some 3\<rparr>
       \<in> set (students (snd (delete_upload
            (fst (create_upload_record ''marks.csv'' ''Marks'' t0 ''admin'' db_alice)) db_alice_marks)))"
proof -
  let ?X = "snd (upload_students decimal_int_float ''s2.csv'' alice_blank_table t0 ''admin'' db_alice)"
  let ?t = "\<lparr>st_roll_no = ''R1'', st_name = ''Alicia'', st_email = None,
           st_phone = None, st_father_name = None, st_father_phone = None,
           st_semester = None\<rparr>"
  have h1: "upload_exists 2 db_alice_marks" by code_simp
  have h2: "reachable db_alice" unfolding reachable_def db_alice_def by (intro evolves.intros)
  have h3: "evolves ?X ?X" by (rule e_refl)
  have h4: "?t \<in> set (students ?X)" by code_simp
  have h5: "st_roll_no ?t \<in> set (map st_roll_no (students db_alice))" by code_simp
  have h6: "db_alice_marks\<lparr>uploads := filter (\<lambda>p. up_id p \<noteq> 2) (uploads db_alice_marks),
           students := filter (\<lambda>t. st_roll_no t \<notin> set (created_rolls 2 db_alice_marks)) (students db_alice_marks),
           upload_students_map := filter (\<lambda>p. usm_upload_id p \<noteq> 2) (upload_students_map db_alice_marks),
           attendance := filter (\<lambda>a. att_source_upload_id a \<noteq> Some 2
                                       \<and> att_roll_no a \<notin> set (created_rolls 2 db_alice_marks)) (attendance db_alice_marks),
           marks := filter (\<lambda>m. mk_source_upload_id m \<noteq> Some 2
                                  \<and> mk_roll_no m \<notin> set (created_rolls 2 db_alice_marks)) (marks db_alice_marks),
           remarks := filter (\<lambda>k. rm_roll_no k \<notin> set (created_rolls 2 db_alice_marks)) (remarks db_alice_marks)\<rparr>
        = db_alice\<lparr>uploads_seq := 2\<rparr>" by code_simp
  have a1: "evolves (snd (upload_attendance decimal_int_float ''att.csv'' attendance_with_semester t0 ''admin'' db_alice))
        db_alice_semester"
    unfolding db_alice_semester_def by (intro evolves.intros)
  have a2: "\<lparr>st_roll_no = ''R1'', st_name = ''Alice'', st_email = Some ''alice@example.org'',
         st_phone = Some ''555'', st_father_name = Some ''Bob'', st_father_phone = Some ''556'',
         st_semester = Some 3\<rparr> \<in> set (students db_alice_semester)" by code_simp
  have m1: "evolves (snd (upload_marks decimal_int_float ''marks.csv'' two_exams t0 ''admin'' db_alice))
        db_alice_marks"
    unfolding db_alice_marks_def by (intro evolves.intros)
  have m2: "\<lparr>st_roll_no = ''R1'', st_name = ''Alice'', st_email = Some ''alice@example.org'',
         st_phone = Some ''555'', st_father_name = Some ''Bob'', st_father_phone = Some ''556'',
         st_semester = Some 3\<rparr> \<in> set (students db_alice_marks)" by code_simp
  from rollback_effect [of 2 db_alice_marks db_alice decimal_int_float "''s2.csv''" alice_blank_table t0
      "''admin''" ?X ?t db_alice "''att.csv''" attendance_with_semester t0 "''admin''" db_alice_semester
      "\<lparr>st_roll_no = ''R1'', st_name = ''Alice'', st_email = Some ''alice@example.org'',
         st_phone = Some ''555'', st_father_name = Some ''Bob'', st_father_phone = Some ''556'',
         st_semester = Some 3\<rparr>" db_alice "''marks.csv''" two_exams t0 "''admin''" db_alice_marks
      "\<lparr>st_roll_no = ''R1'', st_name = ''Alice'', st_email = Some ''alice@example.org'',
         st_phone = Some ''555'', st_father_name = Some ''Bob'', st_father_phone = Some ''556'',
         st_semester = Some 3\<rparr>"]
    h1 h2 h3 h4 h5 h6 a1 a2 m1 m2
  show ?thesis by simp
qed

text \<open>
  The claim as stated fails: rolling back upload 1, which created R1, also removes the two
  marks that upload 2 wrote.
\<close>

theorem rollback_cascade_counterexample:
  "map mk_source_upload_id (marks db_alice_marks) = [Some 2, Some 2]
   \<and> marks (snd (delete_upload 1 db_alice_marks)) = []"
  by code_simp


section \<open>Attendance records\<close>

text \<open>
  Claim C9, as amended: in every state the routes reach from the empty schema there is at
  most one attendance record per (roll number, subject); \<open>attended\<close> and \<open>total\<close> are
  integers, stored as the file gives them, a negative number included.
\<close>

theorem attendance_unique_key:
  "reachable s \<Longrightarrow> distinct (map att_key (attendance s))"
  using evolves_distinct_attendance [of empty_db s]
  by (simp add: reachable_def empty_db_def)

theorem attendance_unique_key_witness:
  "reachable db_alice_semester \<and> distinct (map att_key (attendance db_alice_semester))"
proof -
  have "reachable db_alice_semester"
    unfolding reachable_def db_alice_semester_def db_alice_def by (intro evolves.intros)
  with attendance_unique_key [of db_alice_semester] show ?thesis by simp
qed

text \<open>The claim as stated fails: an attendance file with \<open>attended = -5\<close> is stored as it is.\<close>

theorem negative_attendance_counterexample:
  "reachable (snd (upload_attendance decimal_int_float ''att.csv'' negative_attendance t0 ''admin'' db_alice))
   \<and> attendance (snd (upload_attendance decimal_int_float ''att.csv'' negative_attendance t0 ''admin'' db_alice))
       = [\<lparr>att_roll_no = ''R1'', att_subject = ''Math'', att_attended = - 5, att_total = 10,
            att_semester = None, att_source_upload_id = Some 2\<rparr>]"
proof
  show "reachable (snd (upload_attendance decimal_int_float ''att.csv'' negative_attendance t0 ''admin'' db_alice))"
    unfolding reachable_def db_alice_def by (intro evolves.intros)
  show "attendance (snd (upload_attendance decimal_int_float ''att.csv'' negative_attendance t0 ''admin'' db_alice))
       = [\<lparr>att_roll_no = ''R1'', att_subject = ''Math'', att_attended = - 5, att_total = 10,
            att_semester = None, att_source_upload_id = Some 2\<rparr>]"
    by code_simp
qed

section \<open>Upserts\<close>

text \<open>
  Claim C2: after a Students import that returns, the stored record of a roll number the
  file supplies is the record of the file's last row for that roll number, in all of its
  fields (name, email, phone, father_name, father_phone, semester), whatever was stored
  before: a blank cell of the second file gives NULL, not the first import's value. A roll
  number the file does not supply keeps its record.
\<close>

theorem students_last_write_wins:
  assumes "import_students pf df upload_id s = (Inr (), s')"
  shows "find_student roll s' =
       (case find (\<lambda>t. st_roll_no t = roll) (rev (supplied_students pf df)) of
          Some t \<Rightarrow> Some t
        | None \<Rightarrow> find_student roll s)"
proof (cases rule: import_students_cases [of pf df upload_id s])
  case (fail e)
  with assms show ?thesis by simp
next
  case (ok s1 n)
  with assms have "s' = bump_rowcount upload_id n s1" by simp
  with students_rows_find [OF ok(1), of roll] show ?thesis
    by (simp add: supplied_students_def Let_def find_student_def bump_rowcount_fields)
qed

theorem students_last_write_wins_witness:
  "import_students decimal_int_float alice_blank_table 1 db_alice =
     (Inr (), snd (import_students decimal_int_float alice_blank_table 1 db_alice))
   \<and> find_student ''R1'' db_alice =
       Some \<lparr>st_roll_no = ''R1'', st_name = ''Alice'', st_email = Some ''alice@example.org'',
             st_phone = Some ''555'', st_father_name = Some ''Bob'', st_father_phone = Some ''556'',
             st_semester = Some 3\<rparr>
   \<and> find_student ''R1'' (snd (import_students decimal_int_float alice_blank_table 1 db_alice)) =
       Some \<lparr>st_roll_no = ''R1'', st_name = ''Alicia'', st_email = None, st_phone = None,
             st_father_name = None, st_father_phone = None, st_semester = None\<rparr>"
proof -
  have h: "import_students decimal_int_float alice_blank_table 1 db_alice =
     (Inr (), snd (import_students decimal_int_float alice_blank_table 1 db_alice))"
    by code_simp
  have e: "(case find (\<lambda>t. st_roll_no t = ''R1'') (rev (supplied_students decimal_int_float alice_blank_table)) of
          Some t \<Rightarrow> Some t
        | None \<Rightarrow> find_student ''R1'' db_alice) =
       Some \<lparr>st_roll_no = ''R1'', st_name = ''Alicia'', st_email = None, st_phone = None,
             st_father_name = None, st_father_phone = None, st_semester = None\<rparr>"
    by code_simp
  have f: "find_student ''R1'' db_alice =
       Some \<lparr>st_roll_no = ''R1'', st_name = ''Alice'', st_email = Some ''alice@example.org'',
             st_phone = Some ''555'', st_father_name = Some ''Bob'', st_father_phone = Some ''556'',
             st_semester = Some 3\<rparr>"
    by code_simp
  from students_last_write_wins [OF h, of "''R1''"] e f h show ?thesis by simp
qed







section \<open>Rows without an identifying value\<close>

text \<open>
  Claim C7 holds for rows whose key cell is blank text (\<open>blank_roll_students_row\<close>,
  \<open>blank_key_attendance_row\<close>, \<open>blank_key_marks_row\<close>) and for empty cells of a Students
  file, which \<open>fillna("")\<close> makes blank text. It fails on the code for empty cells of
  Attendance and Marks files: \<open>fillna(0)\<close> turns an empty roll number cell into 0, whose
  string "0" is not empty, so the row is not skipped. Here the first row of the file has an
  empty roll number: the importer builds a record for roll "0", the insert violates the
  reference to \<open>students\<close>, and the whole import fails with nothing applied, the valid
  second row included.
\<close>

theorem blank_roll_attendance_not_skipped:
  "fillna (CInt 0) (normalize_columns blank_roll_attendance) =
     \<lparr>columns = [''roll_no'', ''subject'', ''attended'', ''total''],
      rows = [[CInt 0, CStr ''Math'', CInt 1, CInt 2], [CStr ''R1'', CStr ''Math'', CInt 3, CInt 4]]\<rparr>
   \<and> attendance_of_row decimal_int_float [''roll_no'', ''subject'', ''attended'', ''total''] 2
        [CInt 0, CStr ''Math'', CInt 1, CInt 2] =
       Inr (Some \<lparr>att_roll_no = ''0'', att_subject = ''Math'', att_attended = 1, att_total = 2,
                  att_semester = None, att_source_upload_id = Some 2\<rparr>)
   \<and> fst (upload_attendance decimal_int_float ''att.csv'' blank_roll_attendance t0 ''admin'' db_alice)
       = Inl IntegrityError
   \<and> attendance (snd (upload_attendance decimal_int_float ''att.csv'' blank_roll_attendance t0 ''admin'' db_alice))
       = []"
  by code_simp


section \<open>The marks grid\<close>

text \<open>
  Claim C8 holds for the headers, the exam rows and the cells of existing records
  (\<open>build_marks_grid_structure\<close>, \<open>marks_cell_eq\<close>). It fails on the code for missing
  cells: the literal of line 351 is not an em-dash but the eight bytes of \<open>missing_cell\<close>.
  The grid of R1, who has a Midterm mark in Math and a Final mark in Physics, shows it in
  both missing cells.
\<close>

theorem missing_cell_not_em_dash:
  "build_marks_grid ''R1'' db_alice_marks =
     ([''Exam'', ''Math'', ''Physics''],
      [[(''Exam'', ''Final''), (''Math'', missing_cell), (''Physics'', ''D (20/50)'')],
       [(''Exam'', ''Midterm''), (''Math'', ''A+ (90/100)''), (''Physics'', missing_cell)]])
   \<and> missing_cell \<noteq> em_dash"
  by code_simp

end
